theory Spec2Isabelle
  imports Complex_Main "HOL-Library.Char_ord" "HOL-Library.List_Lexorder" "HOL-Library.Monad_Syntax"
begin

section \<open>Strings as the program reads them\<close>

text \<open>
  The program is \<^verbatim>\<open>src/sang-stats.py\<close>. Its strings are modelled as \<^typ>\<open>string\<close>:
  sequences of code points below 256. The order on strings is the lexicographic order on
  code points, as Python compares \<^verbatim>\<open>str\<close> values.
\<close>

definition is_space :: "char \<Rightarrow> bool" where
  \<comment> \<open>\<^verbatim>\<open>str.isspace\<close> and the regular expression class \<^verbatim>\<open>\\s\<close>, below code point 256\<close>
  "is_space c = (of_char c \<in> set [9, 10, 11, 12, 13, 28, 29, 30, 31, 32, 133, 160 :: nat])"

definition is_digit :: "char \<Rightarrow> bool" where
  "is_digit c = (c \<in> set ''0123456789'')"

definition digit_val :: "char \<Rightarrow> int" where
  "digit_val c = of_char c - 48"

definition strip :: "string \<Rightarrow> string" where
  \<comment> \<open>\<^verbatim>\<open>s.strip()\<close>\<close>
  "strip s = rev (dropWhile is_space (rev (dropWhile is_space s)))"

fun split_on :: "char \<Rightarrow> string \<Rightarrow> string list" where
  \<comment> \<open>\<^verbatim>\<open>s.split(sep)\<close> for a one-character separator: always at least one part\<close>
  "split_on sep [] = [[]]"
| "split_on sep (c # cs) =
     (if c = sep then [] # split_on sep cs
      else (case split_on sep cs of [] \<Rightarrow> [[c]] | p # ps \<Rightarrow> (c # p) # ps))"

definition startswith :: "string \<Rightarrow> string \<Rightarrow> bool" where
  "startswith s p = (take (length p) s = p)"

fun contains :: "string \<Rightarrow> string \<Rightarrow> bool" where
  \<comment> \<open>\<^verbatim>\<open>p in s\<close>\<close>
  "contains [] p = (p = [])"
| "contains (c # cs) p = (startswith (c # cs) p \<or> contains cs p)"

definition slice :: "nat \<Rightarrow> nat \<Rightarrow> string \<Rightarrow> string" where
  \<comment> \<open>\<^verbatim>\<open>s[i:j]\<close> for \<^verbatim>\<open>0 <= i <= j\<close>; out-of-range bounds are clipped, as Python does\<close>
  "slice i j s = take (j - i) (drop i s)"

definition lower_char :: "char \<Rightarrow> char" where
  "lower_char c =
     (if CHR ''A'' \<le> c \<and> c \<le> CHR ''Z'' then char_of (of_char c + (32::nat)) else c)"

definition lower :: "string \<Rightarrow> string" where
  "lower s = map lower_char s"

fun replace_char :: "char \<Rightarrow> string \<Rightarrow> string \<Rightarrow> string" where
  \<comment> \<open>\<^verbatim>\<open>s.replace(c, r)\<close> for a one-character pattern\<close>
  "replace_char c r [] = []"
| "replace_char c r (x # xs) = (if x = c then r @ replace_char c r xs else x # replace_char c r xs)"

subsection \<open>Numbers read from text\<close>

fun digits_val :: "int \<Rightarrow> string \<Rightarrow> int" where
  "digits_val acc [] = acc"
| "digits_val acc (c # cs) = digits_val (10 * acc + digit_val c) cs"

fun drop_underscores :: "string \<Rightarrow> string option" where
  \<comment> \<open>a digit group of a Python numeric literal: digits, single underscores only between two
      digits; the underscores are removed. \<open>None\<close> when the text is no such group.\<close>
  "drop_underscores [] = None"
| "drop_underscores [c] = (if is_digit c then Some [c] else None)"
| "drop_underscores (c # d # cs) =
     (if \<not> is_digit c then None
      else if d = CHR ''_'' then map_option (\<lambda>r. c # r) (drop_underscores cs)
      else map_option (\<lambda>r. c # r) (drop_underscores (d # cs)))"

definition split_sign :: "string \<Rightarrow> bool \<times> string" where
  \<comment> \<open>an optional sign: \<open>True\<close> for a leading minus\<close>
  "split_sign s =
     (case s of
        [] \<Rightarrow> (False, [])
      | c # cs \<Rightarrow> if c = CHR ''-'' then (True, cs) else if c = CHR ''+'' then (False, cs)
                  else (False, s))"

definition is_number_space :: "char \<Rightarrow> bool" where
  \<comment> \<open>the whitespace that \<^verbatim>\<open>int\<close> and \<^verbatim>\<open>float\<close> skip around a number: the six ASCII
      whitespace characters, and the two whitespace characters from code point 127 on, which
      are turned into spaces first. The separators U+001C to U+001F, which \<^verbatim>\<open>str.strip\<close>
      removes, are not skipped.\<close>
  "is_number_space c = (of_char c \<in> set [9, 10, 11, 12, 13, 32, 133, 160 :: nat])"

definition strip_number :: "string \<Rightarrow> string" where
  "strip_number s = rev (dropWhile is_number_space (rev (dropWhile is_number_space s)))"

definition py_int :: "string \<Rightarrow> int option" where
  \<comment> \<open>\<^verbatim>\<open>int(s)\<close> in base 10: surrounding whitespace, an optional sign, a digit group.
      \<open>None\<close> is the \<^verbatim>\<open>ValueError\<close>.\<close>
  "py_int s =
     (case split_sign (strip_number s) of
        (neg, body) \<Rightarrow>
          (case drop_underscores body of
             None \<Rightarrow> None
           | Some ds \<Rightarrow> Some (if neg then - digits_val 0 ds else digits_val 0 ds)))"

section \<open>Constants of the program\<close>

definition VALID_SONGS :: "string list" where
  "VALID_SONGS =
     [''bare-en-far'', ''kristoffer'', ''kokosnoed'', ''mine-drenge'',
      ''fars-kamp'', ''stop-brian'', ''brormand'',
      ''en-fars-kamp'', ''stop-saa-brian'', ''som-en-kokosnoed'']"

definition bot_tokens :: "string list" where
  \<comment> \<open>the alternatives of \<^verbatim>\<open>BOT_PATTERNS\<close>\<close>
  "bot_tokens =
     [''bot'', ''crawl'', ''spider'', ''slurp'', ''mediapartners'', ''adsbot'', ''bingpreview'',
      ''googlebot'', ''yandex'', ''baidu'', ''semrush'', ''ahrefs'', ''mj12bot'', ''dotbot'',
      ''searchbot'', ''claudebot'']"

definition BOT_PATTERNS_search :: "string \<Rightarrow> bool" where
  \<comment> \<open>\<^verbatim>\<open>BOT_PATTERNS.search(ua)\<close>: some alternative occurs in \<open>ua\<close>, letter case ignored\<close>
  "BOT_PATTERNS_search ua = list_ex (contains (lower ua)) bot_tokens"

definition NP_SONG_MAP_get :: "string \<Rightarrow> string" where
  \<comment> \<open>\<^verbatim>\<open>NP_SONG_MAP.get(song, song)\<close>\<close>
  "NP_SONG_MAP_get song =
     (if song = ''fars-kamp'' then ''en-fars-kamp''
      else if song = ''stop-brian'' then ''stop-saa-brian''
      else if song = ''kokosnoed'' then ''som-en-kokosnoed''
      else song)"

section \<open>The line grammar of the primary access log\<close>

record log_match =
  m_ip :: string
  m_time :: string
  m_method :: string
  m_path :: string
  m_status :: string
  m_bytes :: string
  m_referer :: string
  m_ua :: string

definition expect :: "string \<Rightarrow> string \<Rightarrow> string option" where
  \<comment> \<open>a literal piece of the pattern: the rest of the text after it\<close>
  "expect lit s = (if startswith s lit then Some (drop (length lit) s) else None)"

definition run1 :: "(char \<Rightarrow> bool) \<Rightarrow> string \<Rightarrow> (string \<times> string) option" where
  \<comment> \<open>a greedy class repetition \<^verbatim>\<open>[...]+\<close> whose continuation starts with a character
      outside the class: the longest run, which must not be empty\<close>
  "run1 P s = (if takeWhile P s = [] then None else Some (takeWhile P s, dropWhile P s))"

definition non_space :: "char \<Rightarrow> bool" where
  "non_space c = (\<not> is_space c)"

definition LOG_PATTERN_match :: "string \<Rightarrow> log_match option" where
  \<comment> \<open>\<^verbatim>\<open>LOG_PATTERN.match(line)\<close>. Every repetition of the pattern is followed by a
      literal outside its class, so the greedy match is the only one; the protocol field
      \<^verbatim>\<open>\\S+"\<close> is a run of non-space characters of length at least 2 ending in a quote.\<close>
  "LOG_PATTERN_match line = do {
      (ip, r1) \<leftarrow> run1 non_space line;
      r2 \<leftarrow> expect '' - '' r1;
      (user, r3) \<leftarrow> run1 non_space r2;
      r4 \<leftarrow> expect '' ['' r3;
      (tm, r5) \<leftarrow> run1 (\<lambda>c. c \<noteq> CHR '']'') r4;
      r6 \<leftarrow> expect (''] '' @ [CHR 0x22]) r5;
      (method, r7) \<leftarrow> run1 non_space r6;
      r8 \<leftarrow> expect '' '' r7;
      (path, r9) \<leftarrow> run1 non_space r8;
      r10 \<leftarrow> expect '' '' r9;
      (proto, r11) \<leftarrow> run1 non_space r10;
      r12 \<leftarrow> (if length proto < 2 \<or> last proto \<noteq> CHR 0x22 then None else expect '' '' r11);
      (status, r13) \<leftarrow> run1 is_digit r12;
      r14 \<leftarrow> expect '' '' r13;
      (bytes, r15) \<leftarrow> run1 is_digit r14;
      r16 \<leftarrow> expect ('' '' @ [CHR 0x22]) r15;
      r17 \<leftarrow> expect ([CHR 0x22] @ '' '' @ [CHR 0x22]) (dropWhile (\<lambda>c. c \<noteq> CHR 0x22) r16);
      r18 \<leftarrow> expect [CHR 0x22] (dropWhile (\<lambda>c. c \<noteq> CHR 0x22) r17);
      Some \<lparr>m_ip = ip, m_time = tm, m_method = method, m_path = path, m_status = status,
            m_bytes = bytes, m_referer = takeWhile (\<lambda>c. c \<noteq> CHR 0x22) r16,
            m_ua = takeWhile (\<lambda>c. c \<noteq> CHR 0x22) r17\<rparr>
    }"

fun last_mp3 :: "string \<Rightarrow> string \<Rightarrow> string option" where
  \<comment> \<open>the longest proper non-empty prefix of a text that is followed by \<^verbatim>\<open>.mp3\<close>; the
      first argument is the prefix read so far, reversed\<close>
  "last_mp3 acc [] = None"
| "last_mp3 acc (c # cs) =
     (case last_mp3 (c # acc) cs of
        Some r \<Rightarrow> Some r
      | None \<Rightarrow> if startswith cs ''.mp3'' then Some (rev (c # acc)) else None)"

definition parse_song_name :: "string \<Rightarrow> string option" where
  \<comment> \<open>\<^verbatim>\<open>re.match(r'/audio/(.+)\\.mp3', path)\<close>: the dot matches anything but a newline and
      the group is greedy\<close>
  "parse_song_name path =
     (if startswith path ''/audio/''
      then last_mp3 [] (takeWhile (\<lambda>c. c \<noteq> CHR 0x0A) (drop 7 path))
      else None)"

section \<open>Dates and times\<close>

text \<open>
  A naive \<^verbatim>\<open>datetime\<close> value. The constructor of Python's class refuses fields out of
  range; \<open>valid_datetime\<close> is that check.
\<close>

record datetime =
  year :: int
  month :: int
  day :: int
  hour :: int
  minute :: int
  second :: int
  microsecond :: int

definition is_leap :: "int \<Rightarrow> bool" where
  "is_leap y = (y mod 4 = 0 \<and> (y mod 400 = 0 \<or> y mod 100 \<noteq> 0))"

definition days_in_month :: "int \<Rightarrow> int \<Rightarrow> int" where
  "days_in_month y m =
     (if m = 2 then (if is_leap y then 29 else 28)
      else if m \<in> set [4, 6, 9, 11] then 30 else 31)"

definition valid_datetime :: "datetime \<Rightarrow> bool" where
  "valid_datetime d =
     (1 \<le> year d \<and> year d \<le> 9999 \<and> 1 \<le> month d \<and> month d \<le> 12 \<and>
      1 \<le> day d \<and> day d \<le> days_in_month (year d) (month d) \<and>
      hour d < 24 \<and> minute d < 60 \<and> second d < 60 \<and> microsecond d < 1000000)"

definition days_before_year :: "int \<Rightarrow> int" where
  "days_before_year y = (let p = y - 1 in p * 365 + p div 4 - p div 100 + p div 400)"

definition days_before_month :: "int \<Rightarrow> int \<Rightarrow> int" where
  "days_before_month y m = sum_list (map (days_in_month y) [1..m - 1])"

definition to_microseconds :: "datetime \<Rightarrow> int" where
  \<comment> \<open>microseconds since the start of year 1; the difference of two such values is the
      \<^verbatim>\<open>timedelta\<close> of two naive datetimes\<close>
  "to_microseconds d =
     ((((days_before_year (year d) + days_before_month (year d) (month d) + (day d - 1)) * 24
            + hour d) * 60 + minute d) * 60 + second d) * 1000000 + microsecond d"

fun to_digits :: "nat \<Rightarrow> int \<Rightarrow> string" where
  \<comment> \<open>the last \<open>k\<close> decimal digits of a number\<close>
  "to_digits 0 n = []"
| "to_digits (Suc k) n = to_digits k (n div 10) @ [char_of (48 + n mod 10)]"

definition zfill :: "nat \<Rightarrow> int \<Rightarrow> string" where
  \<comment> \<open>\<^verbatim>\<open>'%0kd' % n\<close> for a number from 0 of at most \<open>k\<close> digits\<close>
  "zfill k n = to_digits k n"

definition isoformat :: "datetime \<Rightarrow> string" where
  \<comment> \<open>\<^verbatim>\<open>dt.isoformat()\<close> of a naive datetime: the fraction is printed only when it is not zero\<close>
  "isoformat d =
     zfill 4 (year d) @ ''-'' @ zfill 2 (month d) @ ''-'' @ zfill 2 (day d) @ ''T'' @
     zfill 2 (hour d) @ '':'' @ zfill 2 (minute d) @ '':'' @ zfill 2 (second d) @
     (if microsecond d = 0 then [] else ''.'' @ zfill 6 (microsecond d))"

subsection \<open>The timestamp of the primary access log\<close>

definition all_digits :: "string \<Rightarrow> bool" where
  "all_digits s = list_all is_digit s"

definition num_in :: "string \<Rightarrow> int \<Rightarrow> int \<Rightarrow> int option" where
  \<comment> \<open>a field of one or two digits with a value in a range, as the directives
      \<^verbatim>\<open>%d\<close>, \<^verbatim>\<open>%H\<close>, \<^verbatim>\<open>%M\<close>, \<^verbatim>\<open>%S\<close> of \<^verbatim>\<open>strptime\<close> read it\<close>
  "num_in s lo hi =
     (if (length s = 1 \<or> length s = 2) \<and> all_digits s \<and> lo \<le> digits_val 0 s \<and> digits_val 0 s \<le> hi
      then Some (digits_val 0 s) else None)"

definition month_names :: "string list" where
  "month_names = [''jan'', ''feb'', ''mar'', ''apr'', ''may'', ''jun'',
                  ''jul'', ''aug'', ''sep'', ''oct'', ''nov'', ''dec'']"

fun index_of :: "'a \<Rightarrow> 'a list \<Rightarrow> int option" where
  "index_of x [] = None"
| "index_of x (y # ys) = (if x = y then Some 0 else map_option (\<lambda>i. i + 1) (index_of x ys))"

definition strptime :: "string \<Rightarrow> datetime option" where
  \<comment> \<open>\<^verbatim>\<open>datetime.strptime(s, '%d/%b/%Y:%H:%M:%S')\<close> in the C locale; \<open>None\<close> is the
      \<^verbatim>\<open>ValueError\<close>. The day and the three clock fields are one or two digits, the month
      an English abbreviation in any letter case, the year four digits; the whole text must
      be used, and the fields must make a date that exists. A day written as a space and a
      digit is read too.\<close>
  "strptime s =
     (case split_on CHR ''/'' s of
        [d, b, rest] \<Rightarrow>
          (case split_on CHR '':'' rest of
             [y, h, mi, sec] \<Rightarrow>
               (case (if length d = 2 \<and> hd d = CHR '' '' then num_in (tl d) 1 9 else num_in d 1 31,
                      index_of (lower b) month_names,
                      if length y = 4 \<and> all_digits y then Some (digits_val 0 y) else None) of
                  (Some dd, Some mo, Some yy) \<Rightarrow>
                    (case (num_in h 0 23, num_in mi 0 59, num_in sec 0 59) of
                       (Some hh, Some mm, Some ss) \<Rightarrow>
                         (let dt = \<lparr>year = yy, month = mo + 1, day = dd, hour = hh, minute = mm,
                                    second = ss, microsecond = 0\<rparr>
                          in if valid_datetime dt then Some dt else None)
                     | _ \<Rightarrow> None)
                | _ \<Rightarrow> None)
           | _ \<Rightarrow> None)
      | _ \<Rightarrow> None)"

definition parse_time :: "string \<Rightarrow> string" where
  \<comment> \<open>\<^verbatim>\<open>time_str.split(' ')[0]\<close> is the text before the first space\<close>
  "parse_time time_str =
     (case strptime (takeWhile (\<lambda>c. c \<noteq> CHR '' '') time_str) of
        Some dt \<Rightarrow> isoformat dt @ ''Z''
      | None \<Rightarrow> time_str)"

subsection \<open>The timestamps of the heartbeat and track-event logs\<close>

text \<open>
  \<^verbatim>\<open>datetime.fromisoformat\<close> is a library function whose grammar depends on the version of
  Python: up to 3.10 it reads what \<^verbatim>\<open>isoformat\<close> writes, later versions read more. The
  passes below take it as a parameter \<open>fi\<close>: a function from the text to the naive fields
  and, when an offset is written, the offset in microseconds, with \<open>None\<close> for the
  \<^verbatim>\<open>ValueError\<close>. What is proved of the passes holds for every such function.

  \<open>fromisoformat_documented\<close> is the grammar of the documentation of the versions that do
  not read a trailing \<^verbatim>\<open>Z\<close> (which is why the program rewrites it):
  \<^verbatim>\<open>YYYY-MM-DD[*HH[:MM[:SS[.fff[fff]]]][+HH:MM[:SS[.ffffff]]]]\<close>, where \<^verbatim>\<open>*\<close> is any one
  character. It is used for the concrete inputs only, whose timestamps every version reads
  alike or refuses alike.
\<close>

definition two_digits :: "string \<Rightarrow> int option" where
  "two_digits s = (if length s = 2 \<and> all_digits s then Some (digits_val 0 s) else None)"

definition fraction :: "string \<Rightarrow> int option" where
  \<comment> \<open>\<^verbatim>\<open>.fff\<close> or \<^verbatim>\<open>.ffffff\<close>, in microseconds\<close>
  "fraction s =
     (if s = [] then Some 0
      else if hd s = CHR ''.'' \<and> all_digits (tl s) \<and> length (tl s) = 3
        then Some (digits_val 0 (tl s) * 1000)
      else if hd s = CHR ''.'' \<and> all_digits (tl s) \<and> length (tl s) = 6
        then Some (digits_val 0 (tl s))
      else None)"

definition parse_hh_mm_ss_ff :: "string \<Rightarrow> (int \<times> int \<times> int \<times> int) option" where
  \<comment> \<open>\<^verbatim>\<open>HH[:MM[:SS[.fff[fff]]]]\<close>\<close>
  "parse_hh_mm_ss_ff s =
     (if length s = 2 then map_option (\<lambda>h. (h, 0, 0, 0)) (two_digits s)
      else if length s = 5 then
        (if s ! 2 = CHR '':'' then do {
           h \<leftarrow> two_digits (take 2 s);
           m \<leftarrow> two_digits (drop 3 s);
           Some (h, m, 0, 0) }
         else None)
      else if length s \<ge> 8 then
        (if s ! 2 = CHR '':'' \<and> s ! 5 = CHR '':'' then do {
           h \<leftarrow> two_digits (take 2 s);
           m \<leftarrow> two_digits (slice 3 5 s);
           sec \<leftarrow> two_digits (slice 6 8 s);
           us \<leftarrow> fraction (drop 8 s);
           Some (h, m, sec, us) }
         else None)
      else None)"

definition is_sign :: "char \<Rightarrow> bool" where
  "is_sign c = (c = CHR ''+'' \<or> c = CHR ''-'')"

definition parse_offset :: "string \<Rightarrow> int option option" where
  \<comment> \<open>the text from the sign on: nothing, or a sign and \<^verbatim>\<open>HH:MM[:SS[.ffffff]]\<close>. The
      offset of a \<^verbatim>\<open>timezone\<close> lies strictly between minus and plus 24 hours.\<close>
  "parse_offset r =
     (if r = [] then Some None
      else if length (tl r) \<notin> set [5, 8, 15] then None
      else do {
        (h, m, sec, us) \<leftarrow> parse_hh_mm_ss_ff (tl r);
        let off = ((h * 60 + m) * 60 + sec) * 1000000 + us;
        if off < 86400000000
        then Some (Some (if hd r = CHR ''-'' then - off else off))
        else None })"

definition fromisoformat_documented :: "string \<Rightarrow> (datetime \<times> int option) option" where
  "fromisoformat_documented s =
     (if length s < 10 \<or> length s = 11 then None
      else if \<not> (s ! 4 = CHR ''-'' \<and> s ! 7 = CHR ''-'' \<and> all_digits (take 4 s)
                \<and> all_digits (slice 5 7 s) \<and> all_digits (slice 8 10 s)) then None
      else do {
        (h, m, sec, us) \<leftarrow>
          (if length s = 10 then Some (0, 0, 0, 0)
           else parse_hh_mm_ss_ff (takeWhile (\<lambda>c. \<not> is_sign c) (drop 11 s)));
        off \<leftarrow>
          (if length s = 10 then Some None
           else parse_offset (dropWhile (\<lambda>c. \<not> is_sign c) (drop 11 s)));
        let dt = \<lparr>year = digits_val 0 (take 4 s), month = digits_val 0 (slice 5 7 s),
                  day = digits_val 0 (slice 8 10 s), hour = h, minute = m, second = sec,
                  microsecond = us\<rparr>;
        if valid_datetime dt then Some (dt, off) else None })"

definition instant :: "datetime \<times> int option \<Rightarrow> int" where
  \<comment> \<open>the point in time a parsed timestamp denotes, in microseconds of UTC: the written
      clock reading less the written offset\<close>
  "instant p = to_microseconds (fst p) - (case snd p of None \<Rightarrow> 0 | Some off \<Rightarrow> off)"

definition log_timestamp :: "(string \<Rightarrow> (datetime \<times> int option) option) \<Rightarrow> string \<Rightarrow> datetime option" where
  \<comment> \<open>\<^verbatim>\<open>datetime.fromisoformat(time_str.replace('Z', '+00:00')).replace(tzinfo=None)\<close>;
      the heartbeat pass first calls \<^verbatim>\<open>replace('+00:00', '+00:00')\<close>, which changes nothing.
      \<^verbatim>\<open>replace(tzinfo=None)\<close> keeps the clock reading and forgets the offset.\<close>
  "log_timestamp fi time_str = map_option fst (fi (replace_char CHR ''Z'' ''+00:00'' time_str))"

subsection \<open>Floating-point numbers\<close>

text \<open>
  A Python \<^verbatim>\<open>float\<close> is a double. A finite double is kept as the rational it is, and
  every operation of the program on doubles is the exact operation followed by
  \<open>to_double\<close>, the rounding to the nearest double with 53 bits, ties to the even one, and
  with the smallest exponent at \<open>- 1074\<close>. Infinities are not values of the model: a sum
  of durations, each below 600, stays below the largest double unless the log has more
  than \<open>10 ^ 300\<close> events.
\<close>

function bit_length :: "int \<Rightarrow> int" where
  \<comment> \<open>the number of binary digits of a positive number\<close>
  "bit_length n = (if n \<le> 0 then 0 else 1 + bit_length (n div 2))"
  by pat_completeness auto
termination
  by (relation "measure nat") auto

definition sq :: "int \<Rightarrow> int" where
  "sq x = x * x"

function ipow :: "int \<Rightarrow> int \<Rightarrow> int" where
  \<comment> \<open>\<open>b\<close> to the power \<open>e\<close>, by squaring\<close>
  "ipow b e =
     (if e \<le> 0 then 1
      else if even e then sq (ipow b (e div 2)) else b * sq (ipow b (e div 2)))"
  by pat_completeness auto
termination
  by (relation "measure (\<lambda>(b, e). nat e)") auto

definition scale :: "int \<Rightarrow> rat \<Rightarrow> int \<Rightarrow> rat" where
  \<comment> \<open>\<open>x\<close> times \<open>b\<close> to the power \<open>e\<close>, for an exponent of either sign\<close>
  "scale b x e = (if e \<ge> 0 then x * of_int (ipow b e) else x / of_int (ipow b (- e)))"

definition floor_log2 :: "rat \<Rightarrow> int" where
  \<comment> \<open>for a positive \<open>x\<close>, the largest \<open>k\<close> with \<open>2 ^ k \<le> x\<close>\<close>
  "floor_log2 x =
     (let k = bit_length (fst (quotient_of x)) - bit_length (snd (quotient_of x))
      in if scale 2 1 k \<le> x then k else k - 1)"

definition round_half_even :: "rat \<Rightarrow> int" where
  \<comment> \<open>the nearest integer, a tie going to the even one\<close>
  "round_half_even x =
     (let n = \<lfloor>x\<rfloor>; r = x - of_int n
      in if r < 1 / 2 then n else if 1 / 2 < r then n + 1 else if even n then n else n + 1)"

definition to_double :: "rat \<Rightarrow> rat" where
  "to_double x =
     (if x = 0 then 0
      else let e = max (floor_log2 \<bar>x\<bar> - 52) (- 1074)
           in scale 2 (of_int (round_half_even (scale 2 x (- e)))) e)"

text \<open>
  \<^verbatim>\<open>float(s)\<close> for decimal text: surrounding whitespace, a sign, digits with an optional
  fraction and an optional exponent; the result is the double nearest to the number
  written. \<open>None\<close> stands for the \<^verbatim>\<open>ValueError\<close> and for the texts of infinities and
  NaN, which the program reads but which never pass the check \<^verbatim>\<open>0 < dur < 600\<close>, so that
  both leave the totals unchanged. A number too large for a double, which the program
  reads as an infinity, is here a number above 600 and fails the same check.
\<close>

definition digit_group :: "string \<Rightarrow> string option" where
  \<comment> \<open>a digit group that may be absent\<close>
  "digit_group s = (if s = [] then Some [] else drop_underscores s)"

definition is_e :: "char \<Rightarrow> bool" where
  "is_e c = (c = CHR ''e'' \<or> c = CHR ''E'')"

definition py_float :: "string \<Rightarrow> rat option" where
  "py_float s =
     (case split_sign (strip_number s) of (neg, body) \<Rightarrow>
        let mant = takeWhile (\<lambda>c. \<not> is_e c) body;
            ex = dropWhile (\<lambda>c. \<not> is_e c) body;
            ip = takeWhile (\<lambda>c. c \<noteq> CHR ''.'') mant;
            fp = drop 1 (dropWhile (\<lambda>c. c \<noteq> CHR ''.'') mant)
        in do {
          e \<leftarrow> (if ex = [] then Some 0
                else case split_sign (tl ex) of (eneg, ed) \<Rightarrow>
                  map_option (\<lambda>ds. if eneg then - digits_val 0 ds else digits_val 0 ds)
                    (drop_underscores ed));
          i \<leftarrow> digit_group ip;
          f \<leftarrow> digit_group fp;
          if i = [] \<and> f = [] then None
          else Some (to_double
                 (scale 10 (of_int (if neg then - digits_val 0 (i @ f) else digits_val 0 (i @ f)))
                    (e - int (length f)))) })"

definition round1 :: "rat \<Rightarrow> rat" where
  \<comment> \<open>\<^verbatim>\<open>round(x, 1)\<close> of a double \<open>x\<close>: the exact value of \<open>x\<close> rounded to one decimal, a
      tie going to the even digit. The program holds the double nearest to this decimal,
      which is printed as the decimal; the model keeps the decimal.\<close>
  "round1 x = of_int (round_half_even (x * 10)) / 10"

section \<open>Device information\<close>

text \<open>
  \<^verbatim>\<open>user_agents.parse\<close> belongs to an optional third-party package. It is a parameter of
  the model: \<open>has_ua\<close> says whether the import succeeded, and \<open>parse_ua\<close> gives what the
  parser reports for a user-agent string, \<open>None\<close> when it raises.
\<close>

record ua_result =
  is_mobile :: bool
  is_tablet :: bool
  is_pc :: bool
  is_bot :: bool
  browser_family :: string
  os_family :: string

record device_info =
  device :: string
  browser :: string
  os :: string

definition unknown_device :: device_info where
  "unknown_device = \<lparr>device = ''Ukendt'', browser = [], os = []\<rparr>"

definition get_device_info :: "bool \<Rightarrow> (string \<Rightarrow> ua_result option) \<Rightarrow> string \<Rightarrow> device_info" where
  "get_device_info has_ua parse_ua ua_str =
     (if ua_str = [] \<or> \<not> has_ua then unknown_device
      else case parse_ua ua_str of
        None \<Rightarrow> unknown_device
      | Some ua \<Rightarrow>
          \<lparr>device = (if is_mobile ua then ''Mobil'' else if is_tablet ua then ''Tablet''
                     else if is_pc ua then ''PC'' else if is_bot ua then ''Bot'' else ''Ukendt''),
           browser = browser_family ua, os = os_family ua\<rparr>)"

section \<open>The state of a run\<close>

record play =
  p_t :: string
  p_ip :: string
  p_s :: string
  p_ua :: string
  p_device :: string
  p_browser :: string
  p_os :: string

text \<open>
  The counters are \<^verbatim>\<open>defaultdict\<close>s. A dictionary keeps its keys in the order of their
  first insertion, and the report depends on that order, so each is a list of pairs with
  distinct keys. The sets of the program are lists without repetition, except
  \<open>known_plays\<close>, which is only asked for membership.
\<close>

fun bump :: "'k \<Rightarrow> ('k \<times> nat) list \<Rightarrow> ('k \<times> nat) list" where
  \<comment> \<open>\<^verbatim>\<open>d[k] += 1\<close> on a \<^verbatim>\<open>defaultdict(int)\<close>\<close>
  "bump k [] = [(k, 1)]"
| "bump k ((k', v) # d) = (if k = k' then (k', Suc v) # d else (k', v) # bump k d)"

fun add_to :: "'k \<Rightarrow> rat \<Rightarrow> ('k \<times> rat) list \<Rightarrow> ('k \<times> rat) list" where
  \<comment> \<open>\<^verbatim>\<open>d[k] += x\<close> on a \<^verbatim>\<open>defaultdict(float)\<close>\<close>
  "add_to k x [] = [(k, x)]"
| "add_to k x ((k', v) # d) = (if k = k' then (k', to_double (v + x)) # d else (k', v) # add_to k x d)"

record state =
  plays :: "play list"
  per_song :: "(string \<times> nat) list"
  per_ip :: "(string \<times> nat) list"
  per_day :: "(string \<times> nat) list"
  per_browser :: "(string \<times> nat) list"
  per_os :: "(string \<times> nat) list"
  per_device :: "(string \<times> nat) list"
  page_views :: nat
  unique_page_ips :: "string list"
  hourly_activity :: "(int \<times> nat) list"
  all_ips :: "string list"
  known_plays :: "(string \<times> string \<times> string) set"
  per_song_duration :: "(string \<times> rat) list"
  total_listen_time :: rat
  track_plays_added :: nat

definition init_state :: state where
  "init_state =
     \<lparr>plays = [], per_song = [], per_ip = [], per_day = [], per_browser = [], per_os = [],
      per_device = [], page_views = 0, unique_page_ips = [], hourly_activity = [], all_ips = [],
      known_plays = {}, per_song_duration = [], total_listen_time = 0, track_plays_added = 0\<rparr>"

definition play_key :: "'a play_scheme \<Rightarrow> string \<times> string \<times> string" where
  \<comment> \<open>\<^verbatim>\<open>(p['ip'], p['s'], p['t'][:16])\<close>: listener, song, minute\<close>
  "play_key p = (p_ip p, p_s p, take 16 (p_t p))"

definition count_hour :: "string \<Rightarrow> (int \<times> nat) list \<Rightarrow> (int \<times> nat) list" where
  \<comment> \<open>\<^verbatim>\<open>try: hour = int(t[11:13]); hourly_activity[hour] += 1; except Exception: pass\<close>\<close>
  "count_hour t h = (case py_int (slice 11 13 t) of Some hr \<Rightarrow> bump hr h | None \<Rightarrow> h)"

definition record_play :: "(string \<Rightarrow> device_info) \<Rightarrow> string \<Rightarrow> string \<Rightarrow> string \<Rightarrow> string \<Rightarrow> state \<Rightarrow> state" where
  \<comment> \<open>the statements that all three passes run for a play they count, with \<open>t\<close> its
      timestamp text: the identifier set, the device counters, the record, the counters per
      song, listener and day, and the hour of day\<close>
  "record_play gdi ip song t ua st =
     (let info = gdi ua in
      st\<lparr>all_ips := List.insert ip (all_ips st),
         per_browser := bump (browser info) (per_browser st),
         per_os := bump (os info) (per_os st),
         per_device := bump (device info) (per_device st),
         plays := plays st @ [\<lparr>p_t = t, p_ip = ip, p_s = song, p_ua = take 120 ua,
                               p_device = device info, p_browser = browser info, p_os = os info\<rparr>],
         per_song := bump song (per_song st),
         per_ip := bump ip (per_ip st),
         per_day := bump (take 10 t) (per_day st),
         hourly_activity := count_hour t (hourly_activity st)\<rparr>)"

section \<open>The primary access log\<close>

definition count_page_view :: "log_match \<Rightarrow> state \<Rightarrow> state" where
  "count_page_view m st =
     (if m_method m = ''GET'' \<and> m_path m = ''/'' \<and> digits_val 0 (m_status m) = 200
      then st\<lparr>page_views := Suc (page_views st),
              unique_page_ips := List.insert (m_ip m) (unique_page_ips st)\<rparr>
      else st)"

definition is_play_request :: "log_match \<Rightarrow> bool" where
  \<comment> \<open>the request passes \<^verbatim>\<open>method != 'GET' or status not in (200, 206)\<close> and names a song
      that is not cover art\<close>
  "is_play_request m =
     (m_method m = ''GET'' \<and> digits_val 0 (m_status m) \<in> set [200, 206] \<and>
      (case parse_song_name (m_path m) of
         None \<Rightarrow> False
       | Some song \<Rightarrow> song \<noteq> [] \<and> \<not> contains song ''-art''))"

definition process_match :: "(string \<Rightarrow> device_info) \<Rightarrow> log_match \<Rightarrow> state \<Rightarrow> state" where
  \<comment> \<open>the body of the loop over the primary log, for a line that matched\<close>
  "process_match gdi m st =
     (if BOT_PATTERNS_search (m_ua m) then st
      else if is_play_request m
        then record_play gdi (m_ip m) (the (parse_song_name (m_path m))) (parse_time (m_time m))
               (m_ua m) (count_page_view m st)
        else count_page_view m st)"

definition process_access_line :: "(string \<Rightarrow> device_info) \<Rightarrow> state \<Rightarrow> string \<Rightarrow> state" where
  "process_access_line gdi st line =
     (case LOG_PATTERN_match line of None \<Rightarrow> st | Some m \<Rightarrow> process_match gdi m st)"

definition primary_pass :: "(string \<Rightarrow> device_info) \<Rightarrow> string list \<Rightarrow> state" where
  \<comment> \<open>the loop over the primary log, then \<open>known_plays\<close> built from its plays\<close>
  "primary_pass gdi lines =
     (let st = foldl (process_access_line gdi) init_state lines
      in st\<lparr>known_plays := set (map play_key (plays st))\<rparr>)"

section \<open>The heartbeat log\<close>

definition np_parse_line :: "(string \<Rightarrow> (datetime \<times> int option) option) \<Rightarrow> string \<Rightarrow> (string \<times> string \<times> string \<times> datetime) option" where
  \<comment> \<open>one line of the heartbeat log up to the parsed timestamp: listener, song, user
      agent, time. \<open>None\<close> is every \<^verbatim>\<open>continue\<close> of the loop body.\<close>
  "np_parse_line fi line =
     (let parts = split_on CHR ''|'' (strip line) in
      if length parts < 3 then None
      else
        let ip = strip (parts ! 0);
            time_str = strip (parts ! 1);
            song = NP_SONG_MAP_get (strip (parts ! 2));
            ua = (if length parts \<ge> 5 then strip (parts ! 4)
                  else if length parts \<ge> 4 then strip (parts ! 3) else [])
        in if song = [] \<or> song = ''-'' then None
           else if BOT_PATTERNS_search ua then None
           else map_option (\<lambda>ts. (ip, song, ua, ts)) (log_timestamp fi time_str))"

definition new_session :: "(string \<times> string \<rightharpoonup> datetime) \<Rightarrow> string \<times> string \<Rightarrow> datetime \<Rightarrow> bool" where
  \<comment> \<open>no heartbeat yet for the key, or \<^verbatim>\<open>(ts_utc - last_ts).total_seconds() > 30\<close>\<close>
  "new_session np_sessions key ts =
     (case np_sessions key of
        None \<Rightarrow> True
      | Some last_ts \<Rightarrow> to_microseconds ts - to_microseconds last_ts > 30000000)"

fun np_scan :: "(string \<Rightarrow> (datetime \<times> int option) option) \<Rightarrow>
    (string \<times> string \<rightharpoonup> datetime) \<Rightarrow> string list \<Rightarrow>
    (string \<times> string \<times> string \<times> string \<times> datetime) list" where
  \<comment> \<open>the loop that fills \<^verbatim>\<open>np_entries\<close>: the candidate plays, in file order\<close>
  "np_scan fi np_sessions [] = []"
| "np_scan fi np_sessions (line # ls) =
     (case np_parse_line fi line of
        None \<Rightarrow> np_scan fi np_sessions ls
      | Some (ip, song, ua, ts) \<Rightarrow>
          (if new_session np_sessions (ip, song) ts
           then [(ip, song, isoformat ts @ ''Z'', ua, ts)] else [])
          @ np_scan fi (np_sessions((ip, song) \<mapsto> ts)) ls)"

definition confirm_play :: "(string \<Rightarrow> device_info) \<Rightarrow> string \<Rightarrow> string \<Rightarrow> string \<Rightarrow> string \<Rightarrow> state \<Rightarrow> state" where
  \<comment> \<open>a candidate whose triple is new: the triple is recorded and the play is counted\<close>
  "confirm_play gdi ip song iso_z ua st =
     record_play gdi ip song iso_z ua
       (st\<lparr>known_plays := insert (ip, song, take 16 iso_z) (known_plays st)\<rparr>)"

definition add_np_entry :: "(string \<Rightarrow> device_info) \<Rightarrow> state \<Rightarrow>
    string \<times> string \<times> string \<times> string \<times> datetime \<Rightarrow> state" where
  "add_np_entry gdi st e =
     (case e of (ip, song, iso_z, ua, ts) \<Rightarrow>
        if (ip, song, take 16 iso_z) \<in> known_plays st then st
        else confirm_play gdi ip song iso_z ua st)"

definition heartbeat_pass :: "(string \<Rightarrow> device_info) \<Rightarrow>
    (string \<Rightarrow> (datetime \<times> int option) option) \<Rightarrow> string list \<Rightarrow> state \<Rightarrow> state" where
  "heartbeat_pass gdi fi lines st = foldl (add_np_entry gdi) st (np_scan fi Map.empty lines)"

section \<open>The track-event log\<close>

definition add_duration :: "string \<Rightarrow> string \<Rightarrow> state \<Rightarrow> state" where
  "add_duration song dur_str st =
     (case py_float dur_str of
        None \<Rightarrow> st
      | Some dur \<Rightarrow>
          if 0 < dur \<and> dur < 600
          then st\<lparr>per_song_duration := add_to song dur (per_song_duration st),
                  total_listen_time := to_double (total_listen_time st + dur)\<rparr>
          else st)"

definition track_play :: "(string \<Rightarrow> device_info) \<Rightarrow>
    (string \<Rightarrow> (datetime \<times> int option) option) \<Rightarrow>
    string \<Rightarrow> string \<Rightarrow> string \<Rightarrow> string \<Rightarrow> state \<Rightarrow> state" where
  \<comment> \<open>a \<^verbatim>\<open>play\<close> event that passed the filters\<close>
  "track_play gdi fi ip song time_str ua st =
     (case log_timestamp fi time_str of
        None \<Rightarrow> st
      | Some ts \<Rightarrow>
          let iso_z = isoformat ts @ ''Z'' in
          if (ip, song, take 16 iso_z) \<in> known_plays st then st
          else (confirm_play gdi ip song iso_z ua st)
                 \<lparr>track_plays_added := Suc (track_plays_added st)\<rparr>)"

definition process_track_line :: "(string \<Rightarrow> device_info) \<Rightarrow>
    (string \<Rightarrow> (datetime \<times> int option) option) \<Rightarrow> state \<Rightarrow> string \<Rightarrow> state" where
  "process_track_line gdi fi st line =
     (let parts = split_on CHR ''|'' (strip line) in
      if length parts < 5 then st
      else
        let ip = strip (parts ! 0);
            time_str = strip (parts ! 1);
            event = strip (parts ! 2);
            song = strip (parts ! 3);
            dur_str = strip (parts ! 4);
            ua = (if length parts > 5 then strip (parts ! 5) else [])
        in if song = [] \<or> song = ''-'' \<or> song \<notin> set VALID_SONGS then st
           else if BOT_PATTERNS_search ua then st
           else if event = ''play'' then track_play gdi fi ip (NP_SONG_MAP_get song) time_str ua st
           else if event \<in> set [''end'', ''leave'', ''pause'']
             then add_duration (NP_SONG_MAP_get song) dur_str st
           else st)"

definition track_pass :: "(string \<Rightarrow> device_info) \<Rightarrow>
    (string \<Rightarrow> (datetime \<times> int option) option) \<Rightarrow> string list \<Rightarrow> state \<Rightarrow> state" where
  "track_pass gdi fi lines st = foldl (process_track_line gdi fi) st lines"

section \<open>Geolocation\<close>

record geo_entry =
  g_country :: string
  g_code :: string

text \<open>
  The cache is a dictionary from identifiers to entries: a list of pairs in which the
  first pair with a key is the entry of that key, so that storing an entry is putting a
  pair in front.
\<close>

type_synonym geo_cache = "(string \<times> geo_entry) list"

text \<open>
  The lookup service is outside the program. A call either fails (any exception between
  building the request and reading the answer) or returns a list of results; a result is
  a JSON object whose three fields may be absent, or something that is no object, on which
  \<^verbatim>\<open>r.get\<close> raises. The service is a parameter: a function from the batch sent to the
  reply. The list of batches sent is returned beside the cache, so that the theorems can
  speak of the calls made.
\<close>

datatype reply_item = Item "string option" "string option" "string option" | Not_an_object

datatype geo_reply = Failure | Reply "reply_item list"

definition is_private_ip :: "string \<Rightarrow> bool" where
  "is_private_ip ip =
     (if startswith ip ''127.'' \<or> startswith ip ''10.'' \<or> startswith ip ''192.168.'' then True
      else if startswith ip ''172.'' \<and>
              (case py_int (split_on CHR ''.'' ip ! 1) of
                 None \<Rightarrow> False
               | Some octet \<Rightarrow> 16 \<le> octet \<and> octet \<le> 31) then True
      else ip = ''::1'' \<or> ip = [] \<or> startswith ip ''fe80:'')"

definition get_or :: "'a \<Rightarrow> 'a option \<Rightarrow> 'a" where
  \<comment> \<open>\<^verbatim>\<open>d.get(key, default)\<close>, given the looked-up field\<close>
  "get_or dflt v = (case v of None \<Rightarrow> dflt | Some x \<Rightarrow> x)"

fun store_results :: "reply_item list \<Rightarrow> geo_cache \<Rightarrow> geo_cache \<times> bool" where
  \<comment> \<open>the loop over the results of one batch; \<open>False\<close> when it raised part-way\<close>
  "store_results [] cache = (cache, True)"
| "store_results (Not_an_object # rs) cache = (cache, False)"
| "store_results (Item query country code # rs) cache =
     store_results rs
       ((get_or [] query, \<lparr>g_country = get_or ''Ukendt'' country, g_code = get_or [] code\<rparr>) # cache)"

function run_batches :: "(string list \<Rightarrow> geo_reply) \<Rightarrow> string list \<Rightarrow> geo_cache \<Rightarrow>
    geo_cache \<times> string list list" where
  \<comment> \<open>the loop \<^verbatim>\<open>for i in range(0, len(new_ips), 100)\<close> over what is left of \<open>new_ips\<close>;
      an exception leaves the loop\<close>
  "run_batches service [] cache = (cache, [])"
| "run_batches service (ip # ips) cache =
     (case service (take 100 (ip # ips)) of
        Failure \<Rightarrow> (cache, [take 100 (ip # ips)])
      | Reply results \<Rightarrow>
          (case store_results results cache of
             (cache', ok) \<Rightarrow>
               if ok
               then (case run_batches service (drop 100 (ip # ips)) cache' of
                       (c, reqs) \<Rightarrow> (c, take 100 (ip # ips) # reqs))
               else (cache', [take 100 (ip # ips)])))"
  by pat_completeness auto
termination
  by (relation "measure (\<lambda>(service, ips, cache). length ips)") auto

definition local_entry :: geo_entry where
  "local_entry = \<lparr>g_country = ''Lokalt'', g_code = ''LO''\<rparr>"

fun mark_private :: "string list \<Rightarrow> geo_cache \<Rightarrow> geo_cache" where
  \<comment> \<open>the loop under the comment \<^verbatim>\<open># Mark private IPs\<close>\<close>
  "mark_private [] cache = cache"
| "mark_private (ip # ips) cache =
     mark_private ips
       (if map_of cache ip = None \<and> is_private_ip ip then (ip, local_entry) # cache else cache)"

definition new_ips_of :: "string list \<Rightarrow> geo_cache \<Rightarrow> string list" where
  "new_ips_of ips cache = filter (\<lambda>ip. map_of cache ip = None \<and> \<not> is_private_ip ip) ips"

definition lookup_countries :: "(string list \<Rightarrow> geo_reply) \<Rightarrow> string list \<Rightarrow> geo_cache \<Rightarrow>
    geo_cache \<times> string list list" where
  \<comment> \<open>\<open>ips\<close> is the set of identifiers in the order the program iterates over it\<close>
  "lookup_countries service ips cache =
     (if new_ips_of ips cache = [] then (cache, [])
      else case run_batches service (new_ips_of ips cache) cache of
             (c, reqs) \<Rightarrow> (mark_private ips c, reqs))"

section \<open>The report\<close>

record play_geo = play +
  p_country :: string
  p_cc :: string

record top_ip =
  t_ip :: string
  t_plays :: nat
  t_country :: string

record report =
  r_generated :: string
  r_total_plays :: nat
  r_unique_listeners :: nat
  r_page_views :: nat
  r_unique_visitors :: nat
  r_avg_plays_per_day :: rat
  r_peak_hour :: int
  r_total_listen_minutes :: rat
  r_per_song_duration :: "(string \<times> rat) list"
  r_per_song :: "(string \<times> nat) list"
  r_per_day :: "(string \<times> nat) list"
  r_hourly_activity :: "(string \<times> nat) list"
  r_per_browser :: "(string \<times> nat) list"
  r_per_os :: "(string \<times> nat) list"
  r_per_device :: "(string \<times> nat) list"
  r_per_country :: "(string \<times> nat) list"
  r_top_ips :: "top_ip list"
  r_recent_plays :: "play_geo list"

definition sort_desc :: "('a \<Rightarrow> 'k::linorder) \<Rightarrow> 'a list \<Rightarrow> 'a list" where
  \<comment> \<open>\<^verbatim>\<open>sorted(xs, key=f, reverse=True)\<close>: descending, and elements with equal keys keep
      their order\<close>
  "sort_desc f xs = rev (sort_key f (rev xs))"

fun add_count :: "'k \<Rightarrow> nat \<Rightarrow> ('k \<times> nat) list \<Rightarrow> ('k \<times> nat) list" where
  \<comment> \<open>\<^verbatim>\<open>d[k] += n\<close> on a \<^verbatim>\<open>defaultdict(int)\<close>\<close>
  "add_count k n [] = [(k, n)]"
| "add_count k n ((k', v) # d) = (if k = k' then (k', v + n) # d else (k', v) # add_count k n d)"

definition country_of :: "geo_cache \<Rightarrow> string \<Rightarrow> string" where
  \<comment> \<open>\<^verbatim>\<open>geo_cache.get(ip, {}).get('country', 'Ukendt')\<close>\<close>
  "country_of cache ip = (case map_of cache ip of None \<Rightarrow> ''Ukendt'' | Some g \<Rightarrow> g_country g)"

definition count_countries :: "geo_cache \<Rightarrow> (string \<times> nat) list \<Rightarrow> (string \<times> nat) list" where
  \<comment> \<open>the loop \<^verbatim>\<open>for ip in per_ip\<close> that fills \<^verbatim>\<open>per_country\<close>\<close>
  "count_countries cache per_ip_items =
     foldl (\<lambda>d (ip, n). add_count (country_of cache ip) n d) [] per_ip_items"

definition add_country :: "geo_cache \<Rightarrow> play \<Rightarrow> play_geo" where
  "add_country cache p =
     play.extend p
       \<lparr>p_country = country_of cache (p_ip p),
        p_cc = (case map_of cache (p_ip p) of None \<Rightarrow> [] | Some g \<Rightarrow> g_code g)\<rparr>"

definition keep_first :: "int \<times> nat \<Rightarrow> int \<times> nat \<Rightarrow> int \<times> nat" where
  \<comment> \<open>one step of \<^verbatim>\<open>max\<close>: a later element replaces the best so far only when it is
      strictly larger\<close>
  "keep_first best x = (if snd best < snd x then x else best)"

definition peak_hour_of :: "(int \<times> nat) list \<Rightarrow> int" where
  \<comment> \<open>\<^verbatim>\<open>max(hourly_activity, key=hourly_activity.get) if hourly_activity else 0\<close>:
      \<^verbatim>\<open>max\<close> goes through the keys in the dictionary's order\<close>
  "peak_hour_of h = (case h of [] \<Rightarrow> 0 | e # es \<Rightarrow> fst (foldl keep_first e es))"

definition str_hour :: "nat \<Rightarrow> string" where
  \<comment> \<open>\<^verbatim>\<open>str(h)\<close> for an hour of \<^verbatim>\<open>range(24)\<close>\<close>
  "str_hour h = (if h < 10 then to_digits 1 (int h) else to_digits 2 (int h))"

definition top_ip_of :: "geo_cache \<Rightarrow> string \<times> nat \<Rightarrow> top_ip" where
  "top_ip_of cache e =
     \<lparr>t_ip = fst e, t_plays = snd e,
      t_country = (case map_of cache (fst e) of None \<Rightarrow> ''?'' | Some g \<Rightarrow> g_country g)\<rparr>"

definition build_report :: "string \<Rightarrow> geo_cache \<Rightarrow> state \<Rightarrow> report" where
  \<comment> \<open>from the country count to the dictionary \<^verbatim>\<open>stats\<close>\<close>
  "build_report now cache st =
     (let sorted_plays = sort_desc p_t (map (add_country cache) (plays st)) in
      \<lparr>r_generated = now,
       r_total_plays = length sorted_plays,
       r_unique_listeners = length (per_ip st),
       r_page_views = page_views st,
       r_unique_visitors = length (unique_page_ips st),
       r_avg_plays_per_day =
         round1 (to_double (of_nat (length sorted_plays) / of_nat (max (length (per_day st)) 1))),
       r_peak_hour = peak_hour_of (hourly_activity st),
       r_total_listen_minutes = round1 (to_double (total_listen_time st / 60)),
       r_per_song_duration =
         map (\<lambda>(k, v). (k, round1 (to_double (v / 60)))) (sort_desc snd (per_song_duration st)),
       r_per_song = sort_desc snd (per_song st),
       r_per_day = sort_key fst (per_day st),
       r_hourly_activity =
         map (\<lambda>h. (str_hour h, get_or 0 (map_of (hourly_activity st) (int h)))) [0..<24],
       r_per_browser = take 10 (sort_desc snd (per_browser st)),
       r_per_os = take 10 (sort_desc snd (per_os st)),
       r_per_device = sort_desc snd (per_device st),
       r_per_country = take 15 (sort_desc snd (count_countries cache (per_ip st))),
       r_top_ips = map (top_ip_of cache) (take 20 (sort_desc snd (per_ip st))),
       r_recent_plays = take 200 sorted_plays\<rparr>)"

section \<open>The run\<close>

text \<open>
  The files the program reads and writes, and what lies outside it: the user-agent
  package, the timestamp parser of the library, the lookup service, the order in which a
  set of identifiers is iterated, the clock, and whether the two output files can be
  opened for writing.

  The cache file is missing, or cannot be read as JSON, or holds what \<open>save_geo_cache\<close>
  writes: an object from identifiers to objects with a country and a code. The program
  writes no other content to it; a file that holds other JSON is not an input of the
  model.
\<close>

datatype cache_file = Missing | Unreadable | Stored geo_cache

record files =
  LOG_FILE :: "string list option"
  NP_LOG_FILE :: "string list option"
  TRACK_LOG_FILE :: "string list option"
  GEO_CACHE_FILE :: cache_file
  OUTPUT_FILE :: "report option"

record world =
  HAS_UA :: bool
  parse_ua :: "string \<Rightarrow> ua_result option"
  fromisoformat :: "string \<Rightarrow> (datetime \<times> int option) option"
  service :: "string list \<Rightarrow> geo_reply"
  set_order :: "string list \<Rightarrow> string list"
  utcnow :: string
  cache_writable :: bool
  output_writable :: bool

datatype effect = Load_geo_cache | Geo_request "string list" | Save_geo_cache | Write_output

record outcome =
  files_after :: files
  effects :: "effect list"
  raised :: bool

definition load_geo_cache :: "files \<Rightarrow> geo_cache" where
  "load_geo_cache fs = (case GEO_CACHE_FILE fs of Stored c \<Rightarrow> c | _ \<Rightarrow> [])"

definition save_geo_cache :: "world \<Rightarrow> geo_cache \<Rightarrow> files \<Rightarrow> files" where
  \<comment> \<open>a failure to write is swallowed\<close>
  "save_geo_cache w cache fs = (if cache_writable w then fs\<lparr>GEO_CACHE_FILE := Stored cache\<rparr> else fs)"

definition collect :: "world \<Rightarrow> files \<Rightarrow> string list \<Rightarrow> state" where
  \<comment> \<open>the three passes over the logs, in the program's order\<close>
  "collect w fs lines =
     (let gdi = get_device_info (HAS_UA w) (parse_ua w);
          st1 = primary_pass gdi lines;
          st2 = (case NP_LOG_FILE fs of None \<Rightarrow> st1 | Some ls \<Rightarrow> heartbeat_pass gdi (fromisoformat w) ls st1)
      in case TRACK_LOG_FILE fs of None \<Rightarrow> st2 | Some ls \<Rightarrow> track_pass gdi (fromisoformat w) ls st2)"

definition geo_ips :: "world \<Rightarrow> state \<Rightarrow> string list" where
  \<comment> \<open>\<^verbatim>\<open>all_ips | unique_page_ips\<close>, in the order it is iterated\<close>
  "geo_ips w st = set_order w (List.union (all_ips st) (unique_page_ips st))"

definition main :: "world \<Rightarrow> files \<Rightarrow> outcome" where
  "main w fs =
     (case LOG_FILE fs of
        None \<Rightarrow> \<lparr>files_after = fs, effects = [], raised = False\<rparr>
      | Some lines \<Rightarrow>
          let st = collect w fs lines;
              looked = lookup_countries (service w) (geo_ips w st) (load_geo_cache fs);
              fs1 = save_geo_cache w (fst looked) fs;
              effs = Load_geo_cache # map Geo_request (snd looked) @ [Save_geo_cache]
          in if output_writable w
             then \<lparr>files_after = fs1\<lparr>OUTPUT_FILE := Some (build_report (utcnow w) (fst looked) st)\<rparr>,
                   effects = effs @ [Write_output], raised = False\<rparr>
             else \<lparr>files_after = fs1, effects = effs, raised = True\<rparr>)"

definition report_of :: "world \<Rightarrow> files \<Rightarrow> report option" where
  \<comment> \<open>the report file after the run\<close>
  "report_of w fs = OUTPUT_FILE (files_after (main w fs))"

section \<open>Concrete inputs\<close>

text \<open>
  Lines of the primary log in the combined log format, and a world in which the
  user-agent package is absent, every lookup fails and both files can be written.
\<close>

definition access_line :: "string \<Rightarrow> string \<Rightarrow> string \<Rightarrow> string \<Rightarrow> string \<Rightarrow> string" where
  "access_line ip time_str path status ua =
     ip @ '' - - ['' @ time_str @ ''] '' @ [CHR 0x22] @ ''GET '' @ path @ '' HTTP/1.1'' @ [CHR 0x22] @
     '' '' @ status @ '' 1024 '' @ [CHR 0x22] @ ''-'' @ [CHR 0x22] @ '' '' @ [CHR 0x22] @ ua @
     [CHR 0x22, CHR 0x0A]"

definition offline_world :: world where
  "offline_world =
     \<lparr>HAS_UA = False, parse_ua = (\<lambda>ua. None),
      fromisoformat = fromisoformat_documented, service = (\<lambda>batch. Failure),
      set_order = (\<lambda>ips. ips), utcnow = ''2025-01-02T00:00:00Z'',
      cache_writable = True, output_writable = True\<rparr>"

definition only_logs :: "string list option \<Rightarrow> string list option \<Rightarrow> string list option \<Rightarrow> files" where
  \<comment> \<open>the three logs, no cache file and no earlier report\<close>
  "only_logs primary heartbeat track =
     \<lparr>LOG_FILE = primary, NP_LOG_FILE = heartbeat, TRACK_LOG_FILE = track,
      GEO_CACHE_FILE = Missing, OUTPUT_FILE = None\<rparr>"

definition scenario_A :: files where
  \<comment> \<open>one play of \<^verbatim>\<open>/audio/kokosnoed.mp3\<close> at 10:00:05 and an \<^verbatim>\<open>end\<close> event of 185 seconds\<close>
  "scenario_A =
     only_logs
       (Some [access_line ''1.2.3.4'' ''01/Jan/2025:10:00:05 +0000'' ''/audio/kokosnoed.mp3'' ''200''
                ''Mozilla/5.0''])
       None
       (Some [''1.2.3.4|2025-01-01T10:03:10Z|end|kokosnoed|185|Mozilla/5.0''])"

definition scenario_F :: files where
  \<comment> \<open>no primary log; the two other logs are there\<close>
  "scenario_F =
     only_logs None
       (Some [''1.2.3.4|2025-01-01T10:00:05Z|kokosnoed''])
       (Some [''1.2.3.4|2025-01-01T10:03:10Z|play|kokosnoed|0|Mozilla/5.0''])"

definition scenario_tie :: files where
  \<comment> \<open>two plays in the primary log: the first at hour 15, the second at hour 3\<close>
  "scenario_tie =
     only_logs
       (Some [access_line ''1.2.3.4'' ''01/Jan/2025:15:00:00 +0000'' ''/audio/brormand.mp3'' ''200''
                ''Mozilla/5.0'',
              access_line ''1.2.3.4'' ''02/Jan/2025:03:00:00 +0000'' ''/audio/brormand.mp3'' ''200''
                ''Mozilla/5.0''])
       None None"

definition scenario_tie_passes :: files where
  \<comment> \<open>a play of the primary log at hour 15 of the second day, and a heartbeat of another
      listener at hour 3 of the first day\<close>
  "scenario_tie_passes =
     only_logs
       (Some [access_line ''1.2.3.4'' ''02/Jan/2025:15:00:00 +0000'' ''/audio/brormand.mp3'' ''200''
                ''Mozilla/5.0''])
       (Some [''5.6.7.8|2025-01-01T03:00:00Z|brormand|5|Mozilla/5.0''])
       None"

definition scenario_dup :: files where
  \<comment> \<open>two requests of the primary log for one song by one listener within one minute\<close>
  "scenario_dup =
     only_logs
       (Some [access_line ''1.2.3.4'' ''01/Jan/2025:10:00:05 +0000'' ''/audio/brormand.mp3'' ''200''
                ''Mozilla/5.0'',
              access_line ''1.2.3.4'' ''01/Jan/2025:10:00:20 +0000'' ''/audio/brormand.mp3'' ''206''
                ''Mozilla/5.0''])
       None None"

definition tally :: "state \<Rightarrow> nat \<times> (string \<times> nat) list \<times> (string \<times> rat) list \<times> rat" where
  \<comment> \<open>the number of plays, the plays per song and the listening time of a state\<close>
  "tally st = (length (plays st), per_song st, per_song_duration st, total_listen_time st)"

definition scenario_C :: files where
  \<comment> \<open>an empty primary log and two heartbeats of one listener for one song, 45 seconds
      apart within one minute\<close>
  "scenario_C =
     only_logs (Some [])
       (Some [''1.2.3.4|2025-01-01T10:00:05Z|brormand|5|Mozilla/5.0'',
              ''1.2.3.4|2025-01-01T10:00:50Z|brormand|50|Mozilla/5.0''])
       None"

definition scenario_C_next_minute :: files where
  \<comment> \<open>the same, with the 45 seconds across the turn of a minute\<close>
  "scenario_C_next_minute =
     only_logs (Some [])
       (Some [''1.2.3.4|2025-01-01T10:00:30Z|brormand|5|Mozilla/5.0'',
              ''1.2.3.4|2025-01-01T10:01:15Z|brormand|50|Mozilla/5.0''])
       None"

definition scenario_iso_time :: files where
  \<comment> \<open>a primary log whose bracketed timestamp is in ISO form, which \<^verbatim>\<open>strptime\<close> refuses\<close>
  "scenario_iso_time =
     only_logs
       (Some [access_line ''1.2.3.4'' ''2025-01-01T10:00:05+00:00'' ''/audio/brormand.mp3'' ''200''
                ''Mozilla/5.0''])
       None None"

definition online_world :: world where
  \<comment> \<open>a world whose lookup service answers every identifier it is asked\<close>
  "online_world =
     \<lparr>HAS_UA = False, parse_ua = (\<lambda>ua. None),
      fromisoformat = fromisoformat_documented,
      service = (\<lambda>batch. Reply (map (\<lambda>ip. Item (Some ip) (Some ''Denmark'') (Some ''DK'')) batch)),
      set_order = (\<lambda>ips. ips), utcnow = ''2025-01-02T00:00:00Z'',
      cache_writable = True, output_writable = True\<rparr>"

definition scenario_E :: files where
  \<comment> \<open>one play, from the private address 192.168.1.5\<close>
  "scenario_E =
     only_logs
       (Some [access_line ''192.168.1.5'' ''01/Jan/2025:10:00:05 +0000'' ''/audio/brormand.mp3'' ''200''
                ''Mozilla/5.0''])
       None None"

definition scenario_E_mixed :: files where
  \<comment> \<open>the same play, and one from the public address 8.8.8.8\<close>
  "scenario_E_mixed =
     only_logs
       (Some [access_line ''192.168.1.5'' ''01/Jan/2025:10:00:05 +0000'' ''/audio/brormand.mp3'' ''200''
                ''Mozilla/5.0'',
              access_line ''8.8.8.8'' ''01/Jan/2025:11:00:05 +0000'' ''/audio/brormand.mp3'' ''200''
                ''Mozilla/5.0''])
       None None"

section \<open>Invariants of the passes\<close>

definition dedup_ok :: "play list \<Rightarrow> state \<Rightarrow> bool" where
  \<comment> \<open>\<open>P\<close> are the plays of the primary log. They still head the list; the plays added
      after them have pairwise different triples, none of which is the triple of a primary
      play; and every triple of a play is known.\<close>
  "dedup_ok P st =
     (take (length P) (plays st) = P \<and> length P \<le> length (plays st) \<and>
      distinct (map play_key (drop (length P) (plays st))) \<and>
      set (map play_key (drop (length P) (plays st))) \<inter> set (map play_key P) = {} \<and>
      set (map play_key (plays st)) \<subseteq> known_plays st)"

section \<open>Words for the lookup\<close>

fun complete :: "geo_reply \<Rightarrow> bool" where
  \<comment> \<open>the call returned and every result could be stored\<close>
  "complete Failure = False"
| "complete (Reply results) = (Not_an_object \<notin> set results)"



fun reply_cache :: "geo_reply \<Rightarrow> geo_cache \<Rightarrow> geo_cache" where
  \<comment> \<open>the cache after the results of a reply were stored, as far as they could be\<close>
  "reply_cache Failure cache = cache"
| "reply_cache (Reply results) cache = fst (store_results results cache)"

section \<open>Words of the claims\<close>

text \<open>
  The heartbeats of a log are its lines that pass the filters of the heartbeat pass and
  whose timestamp the parser reads, in file order: listener, song, user agent, time. The
  session starts of the heartbeats of one key are the first of them and every later one
  that is more than 30 seconds after the one just before it.
\<close>

definition heartbeats :: "(string \<Rightarrow> (datetime \<times> int option) option) \<Rightarrow> string list \<Rightarrow>
    (string \<times> string \<times> string \<times> datetime) list" where
  "heartbeats fi lines = List.map_filter (np_parse_line fi) lines"

definition of_key :: "string \<times> string \<Rightarrow> string \<times> string \<times> string \<times> datetime \<Rightarrow> bool" where
  "of_key key h = (case h of (ip, song, ua, ts) \<Rightarrow> (ip, song) = key)"

definition candidate_of_key :: "string \<times> string \<Rightarrow> string \<times> string \<times> string \<times> string \<times> datetime \<Rightarrow> bool" where
  "candidate_of_key key e = (case e of (ip, song, t, ua, ts) \<Rightarrow> (ip, song) = key)"

definition candidate :: "string \<times> string \<times> string \<times> datetime \<Rightarrow>
    string \<times> string \<times> string \<times> string \<times> datetime" where
  \<comment> \<open>the candidate play that a heartbeat gives when it starts a session\<close>
  "candidate h = (case h of (ip, song, ua, ts) \<Rightarrow> (ip, song, isoformat ts @ ''Z'', ua, ts))"

definition heartbeat_time :: "string \<times> string \<times> string \<times> datetime \<Rightarrow> datetime" where
  "heartbeat_time h = snd (snd (snd h))"

fun later_starts :: "datetime \<Rightarrow> (string \<times> string \<times> string \<times> datetime) list \<Rightarrow>
    (string \<times> string \<times> string \<times> datetime) list" where
  "later_starts prev [] = []"
| "later_starts prev (h # hs) =
     (if to_microseconds (heartbeat_time h) - to_microseconds prev > 30000000 then [h] else [])
     @ later_starts (heartbeat_time h) hs"

fun session_starts :: "(string \<times> string \<times> string \<times> datetime) list \<Rightarrow>
    (string \<times> string \<times> string \<times> datetime) list" where
  "session_starts [] = []"
| "session_starts (h # hs) = h # later_starts (heartbeat_time h) hs"

text \<open>
  The hours of the counted plays are what \<^verbatim>\<open>int\<close> reads at characters 11 and 12 of the
  stored timestamp of each play that has such an hour, in the order of the list of plays.
  Counting a list of hours one after the other gives a dictionary of hours.
\<close>

definition played_hours :: "state \<Rightarrow> int list" where
  "played_hours st = List.map_filter (\<lambda>p. py_int (slice 11 13 (p_t p))) (plays st)"

definition count_hours :: "int list \<Rightarrow> (int \<times> nat) list" where
  "count_hours hs = foldl (\<lambda>d h. bump h d) [] hs"

definition hours_match :: "state \<Rightarrow> bool" where
  \<comment> \<open>the hour counter is the count of the hours of the plays, in their order\<close>
  "hours_match st = (hourly_activity st = count_hours (played_hours st))"

definition after_heartbeat :: "world \<Rightarrow> files \<Rightarrow> string list \<Rightarrow> state" where
  \<comment> \<open>the state between the heartbeat pass and the track-event pass\<close>
  "after_heartbeat w fs lines =
     (let gdi = get_device_info (HAS_UA w) (parse_ua w);
          st1 = primary_pass gdi lines
      in case NP_LOG_FILE fs of None \<Rightarrow> st1
         | Some ls \<Rightarrow> heartbeat_pass gdi (fromisoformat w) ls st1)"

section \<open>Facts about the passes\<close>

lemma foldl_invariant:
  "P s \<Longrightarrow> (\<And>s x. P s \<Longrightarrow> P (f s x)) \<Longrightarrow> P (foldl f s xs)"
  by (induction xs arbitrary: s) auto

lemma record_play_fields [simp]:
  "plays (record_play gdi ip song t ua st) =
     plays st @ [\<lparr>p_t = t, p_ip = ip, p_s = song, p_ua = take 120 ua,
                  p_device = device (gdi ua), p_browser = browser (gdi ua), p_os = os (gdi ua)\<rparr>]"
  "hourly_activity (record_play gdi ip song t ua st) = count_hour t (hourly_activity st)"
  "known_plays (record_play gdi ip song t ua st) = known_plays st"
  "per_day (record_play gdi ip song t ua st) = bump (take 10 t) (per_day st)"
  "per_ip (record_play gdi ip song t ua st) = bump ip (per_ip st)"
  "per_song (record_play gdi ip song t ua st) = bump song (per_song st)"
  "page_views (record_play gdi ip song t ua st) = page_views st"
  "per_song_duration (record_play gdi ip song t ua st) = per_song_duration st"
  "total_listen_time (record_play gdi ip song t ua st) = total_listen_time st"
  by (simp_all add: record_play_def Let_def)

lemma count_page_view_fields [simp]:
  "plays (count_page_view m st) = plays st"
  "hourly_activity (count_page_view m st) = hourly_activity st"
  "known_plays (count_page_view m st) = known_plays st"
  "per_day (count_page_view m st) = per_day st"
  by (simp_all add: count_page_view_def)

lemma add_duration_fields [simp]:
  "plays (add_duration song d st) = plays st"
  "hourly_activity (add_duration song d st) = hourly_activity st"
  "known_plays (add_duration song d st) = known_plays st"
  by (simp_all add: add_duration_def split: option.splits)

subsection \<open>Numbers as the program reads and rounds them\<close>

text \<open>
  \<^verbatim>\<open>float\<close> gives the double nearest to the decimal text, so a text just below 600 can
  read as 600; \<^verbatim>\<open>round\<close> rounds the double, not the fraction it came from.
\<close>

lemma py_float_rounds:
  "py_float ''599.99999999999999999'' = Some 600 \<and> py_float ''185'' = Some 185 \<and>
   py_float '' 1.5e2 '' = Some 150 \<and> py_float ''abc'' = None \<and>
   py_float [char_of (31 :: nat), CHR ''7''] = None"
  by code_simp

lemma round1_of_doubles:
  "round1 (to_double (3 / 60)) = 1 / 10 \<and> round1 (to_double (21 / 20)) = 11 / 10 \<and>
   round1 (to_double (1 / 4)) = 2 / 10 \<and> round1 (to_double (3 / 4)) = 8 / 10"
  by code_simp

lemma is_private_ip_examples:
  "is_private_ip ''172.16.0.1'' \<and> \<not> is_private_ip ''172.32.0.1'' \<and>
   \<not> is_private_ip (''172.'' @ [char_of (31 :: nat)] @ ''16.0.1'')"
  by code_simp

subsection \<open>The hour counter keeps distinct keys\<close>

lemma map_fst_bump_old: "(k, v) \<in> set d \<Longrightarrow> map fst (bump k d) = map fst d"
  by (induction d) auto

lemma map_fst_bump_new: "k \<notin> fst ` set d \<Longrightarrow> map fst (bump k d) = map fst d @ [k]"
  by (induction d) auto

lemma distinct_bump: "distinct (map fst d) \<Longrightarrow> distinct (map fst (bump k d))"
  by (cases "k \<in> fst ` set d") (auto simp: map_fst_bump_old map_fst_bump_new)

subsection \<open>The first of the largest\<close>

lemma first_max_foldl:
  "\<exists>pre post. e # es = pre @ foldl keep_first e es # post \<and>
     (\<forall>x\<in>set pre. snd x < snd (foldl keep_first e es)) \<and>
     (\<forall>x\<in>set post. snd x \<le> snd (foldl keep_first e es))"
proof (induction es rule: rev_induct)
  case Nil
  have "[e] = [] @ e # []" by simp
  then show ?case by (metis empty_iff foldl_Nil list.set(1))
next
  case (snoc x es)
  then obtain pre post where d: "e # es = pre @ foldl keep_first e es # post"
    and lt: "\<forall>y\<in>set pre. snd y < snd (foldl keep_first e es)"
    and le: "\<forall>y\<in>set post. snd y \<le> snd (foldl keep_first e es)"
    by blast
  show ?case
  proof (cases "snd (foldl keep_first e es) < snd x")
    case True
    have "e # es @ [x] = (e # es) @ foldl keep_first e (es @ [x]) # []"
      using True by (simp add: keep_first_def)
    moreover have "\<forall>y\<in>set (e # es). snd y < snd (foldl keep_first e (es @ [x]))"
    proof
      fix y assume "y \<in> set (e # es)"
      then have "y \<in> set pre \<or> y = foldl keep_first e es \<or> y \<in> set post"
        by (subst (asm) d) auto
      then have "snd y \<le> snd (foldl keep_first e es)" using lt le by auto
      then show "snd y < snd (foldl keep_first e (es @ [x]))"
        using True by (simp add: keep_first_def)
    qed
    ultimately show ?thesis by (metis empty_iff list.set(1))
  next
    case False
    have "e # es @ [x] = pre @ foldl keep_first e (es @ [x]) # (post @ [x])"
      using False d by (simp add: keep_first_def)
    moreover have "\<forall>y\<in>set pre. snd y < snd (foldl keep_first e (es @ [x]))"
      using False lt by (simp add: keep_first_def)
    moreover have "\<forall>y\<in>set (post @ [x]). snd y \<le> snd (foldl keep_first e (es @ [x]))"
      using False le by (auto simp: keep_first_def)
    ultimately show ?thesis by blast
  qed
qed

lemma peak_hour_first_max:
  assumes "h \<noteq> []"
  shows "\<exists>pre c post. h = pre @ (peak_hour_of h, c) # post \<and>
           (\<forall>x\<in>set pre. snd x < c) \<and> (\<forall>x\<in>set post. snd x \<le> c)"
proof -
  obtain e es where h: "h = e # es" using assms by (cases h) auto
  have p: "peak_hour_of h = fst (foldl keep_first e es)"
    by (simp add: h peak_hour_of_def)
  from first_max_foldl [of e es] obtain pre post where
    "e # es = pre @ foldl keep_first e es # post"
    "\<forall>x\<in>set pre. snd x < snd (foldl keep_first e es)"
    "\<forall>x\<in>set post. snd x \<le> snd (foldl keep_first e es)" by blast
  then show ?thesis
    unfolding h [symmetric] p
    by (metis prod.collapse)
qed

subsection \<open>Plays added after the primary log have new triples\<close>

lemma dedup_ok_primary_pass: "dedup_ok (plays (primary_pass gdi lines)) (primary_pass gdi lines)"
  by (simp add: dedup_ok_def primary_pass_def Let_def)

lemma dedup_ok_confirm_play:
  assumes "dedup_ok P st" and "(ip, song, take 16 t) \<notin> known_plays st"
  shows "dedup_ok P (confirm_play gdi ip song t ua st)"
proof -
  let ?p = "\<lparr>p_t = t, p_ip = ip, p_s = song, p_ua = take 120 ua, p_device = device (gdi ua),
             p_browser = browser (gdi ua), p_os = os (gdi ua)\<rparr>"
  have pl: "plays (confirm_play gdi ip song t ua st) = plays st @ [?p]"
    and kn: "known_plays (confirm_play gdi ip song t ua st) = insert (ip, song, take 16 t) (known_plays st)"
    by (simp_all add: confirm_play_def)
  have k: "play_key ?p = (ip, song, take 16 t)"
    by (simp add: play_key_def)
  from assms(1) have tk: "take (length P) (plays st) = P" and le: "length P \<le> length (plays st)"
    and di: "distinct (map play_key (drop (length P) (plays st)))"
    and dj: "set (map play_key (drop (length P) (plays st))) \<inter> set (map play_key P) = {}"
    and kp: "set (map play_key (plays st)) \<subseteq> known_plays st"
    by (simp_all add: dedup_ok_def)
  have fresh: "play_key ?p \<notin> set (map play_key (plays st))"
    using assms(2) kp k by auto
  have sub1: "set (map play_key (drop (length P) (plays st))) \<subseteq> set (map play_key (plays st))"
    by (auto dest: in_set_dropD)
  have sub2: "set (map play_key P) \<subseteq> set (map play_key (plays st))"
    using tk by (metis set_take_subset image_mono set_map)
  show ?thesis
    unfolding dedup_ok_def pl kn
    using tk le di dj kp fresh sub1 sub2 k by auto
qed

lemma dedup_ok_add_np_entry: "dedup_ok P st \<Longrightarrow> dedup_ok P (add_np_entry gdi st e)"
  by (auto simp: add_np_entry_def dedup_ok_confirm_play split: prod.splits)

lemma dedup_ok_heartbeat_pass: "dedup_ok P st \<Longrightarrow> dedup_ok P (heartbeat_pass gdi fi lines st)"
  unfolding heartbeat_pass_def by (rule foldl_invariant) (simp_all add: dedup_ok_add_np_entry)

lemma dedup_ok_track_count: "dedup_ok P st \<Longrightarrow> dedup_ok P (st\<lparr>track_plays_added := n\<rparr>)"
  by (simp add: dedup_ok_def)

lemma dedup_ok_track_play: "dedup_ok P st \<Longrightarrow> dedup_ok P (track_play gdi fi ip song t ua st)"
  by (auto simp: track_play_def Let_def dedup_ok_confirm_play dedup_ok_track_count split: option.splits)

lemma dedup_ok_add_duration: "dedup_ok P st \<Longrightarrow> dedup_ok P (add_duration song d st)"
  by (simp add: dedup_ok_def)

lemma dedup_ok_process_track_line: "dedup_ok P st \<Longrightarrow> dedup_ok P (process_track_line gdi fi st line)"
  by (simp add: process_track_line_def Let_def dedup_ok_track_play dedup_ok_add_duration)

lemma dedup_ok_track_pass: "dedup_ok P st \<Longrightarrow> dedup_ok P (track_pass gdi fi lines st)"
  unfolding track_pass_def by (rule foldl_invariant) (simp_all add: dedup_ok_process_track_line)

lemma dedup_ok_collect:
  "dedup_ok (plays (primary_pass (get_device_info (HAS_UA w) (parse_ua w)) lines)) (collect w fs lines)"
  by (simp add: collect_def Let_def dedup_ok_primary_pass dedup_ok_heartbeat_pass dedup_ok_track_pass
      split: option.splits)

subsection \<open>The report of a run, and the first scenario\<close>

lemma length_sort_desc [simp]: "length (sort_desc f xs) = length xs"
  by (simp add: sort_desc_def)

lemma sort_desc_single [simp]: "sort_desc f [x] = [x]"
  by (simp add: sort_desc_def)

lemma report_written:
  "LOG_FILE fs = Some lines \<Longrightarrow> output_writable w \<Longrightarrow>
   report_of w fs =
     Some (build_report (utcnow w)
       (fst (lookup_countries (service w) (geo_ips w (collect w fs lines)) (load_geo_cache fs)))
       (collect w fs lines))"
  by (simp add: report_of_def main_def Let_def)

lemma scenario_A_tally:
  "tally (collect w scenario_A
     [access_line ''1.2.3.4'' ''01/Jan/2025:10:00:05 +0000'' ''/audio/kokosnoed.mp3'' ''200'' ''Mozilla/5.0'']) =
   (1, [(''kokosnoed'', 1)], [(''som-en-kokosnoed'', 185)], 185)"
  by code_simp

lemma round1_185:
  "round1 (to_double (185 / 60)) = 31 / 10" "round1 (to_double (37 / 12)) = 31 / 10"
  by code_simp+

subsection \<open>Two heartbeats\<close>

lemma primary_pass_empty: "primary_pass gdi [] = init_state"
  by (simp add: primary_pass_def init_state_def)

lemma np_scan_two:
  assumes "np_parse_line fi l1 = Some (ip, song, ua1, t1)"
    and "np_parse_line fi l2 = Some (ip, song, ua2, t2)"
  shows "np_scan fi Map.empty [l1, l2] =
     (ip, song, isoformat t1 @ ''Z'', ua1, t1) #
     (if to_microseconds t2 - to_microseconds t1 > 30000000
      then [(ip, song, isoformat t2 @ ''Z'', ua2, t2)] else [])"
  using assms by (simp add: new_session_def)

lemma length_plays_confirm_play:
  "length (plays (confirm_play gdi ip song t ua st)) = Suc (length (plays st))"
  by (simp add: confirm_play_def)

lemma known_plays_confirm_play:
  "known_plays (confirm_play gdi ip song t ua st) = insert (ip, song, take 16 t) (known_plays st)"
  by (simp add: confirm_play_def)

lemma heartbeat_pass_two:
  assumes "np_parse_line fi l1 = Some (ip, song, ua1, t1)"
    and "np_parse_line fi l2 = Some (ip, song, ua2, t2)"
  shows "length (plays (heartbeat_pass gdi fi [l1, l2] init_state)) =
     (if to_microseconds t2 - to_microseconds t1 > 30000000 \<and>
         take 16 (isoformat t1 @ ''Z'') \<noteq> take 16 (isoformat t2 @ ''Z'')
      then 2 else 1)"
  unfolding heartbeat_pass_def np_scan_two [OF assms]
  by (simp add: add_np_entry_def init_state_def length_plays_confirm_play known_plays_confirm_play)

subsection \<open>Rewriting the suffix\<close>

lemma replace_char_append: "replace_char c r (xs @ ys) = replace_char c r xs @ replace_char c r ys"
  by (induction xs) auto

lemma replace_char_absent: "c \<notin> set xs \<Longrightarrow> replace_char c r xs = xs"
  by (induction xs) auto

subsection \<open>Timestamps that do not parse\<close>

text \<open>
  \<^verbatim>\<open>int\<close> skips blanks around the digits, and the separators U+001C to U+001F are not
  blanks for it.
\<close>

lemma py_int_blanks:
  "py_int '' 7'' = Some 7 \<and> py_int [char_of (31 :: nat), CHR ''7''] = None \<and>
   py_int [char_of (28 :: nat), CHR ''7''] = None \<and> py_int ''07'' = Some 7 \<and>
   py_int '':1'' = None"
  by code_simp

lemma np_parse_line_bad_time:
  "log_timestamp fi (strip (split_on CHR ''|'' (strip line) ! 1)) = None \<Longrightarrow> np_parse_line fi line = None"
  by (simp add: np_parse_line_def Let_def)

lemma process_track_line_bad_time:
  "strip (split_on CHR ''|'' (strip line) ! 2) = ''play'' \<Longrightarrow>
   log_timestamp fi (strip (split_on CHR ''|'' (strip line) ! 1)) = None \<Longrightarrow>
   process_track_line gdi fi st line = st"
  by (simp add: process_track_line_def Let_def track_play_def)

lemma process_access_line_bad_time:
  assumes "LOG_PATTERN_match line = Some m" and "\<not> BOT_PATTERNS_search (m_ua m)"
    and "is_play_request m" and "parse_song_name (m_path m) = Some song"
    and "strptime (takeWhile (\<lambda>c. c \<noteq> CHR '' '') (m_time m)) = None"
  shows "process_access_line gdi st line =
     record_play gdi (m_ip m) song (m_time m) (m_ua m) (count_page_view m st)"
  using assms by (simp add: process_access_line_def process_match_def parse_time_def)

subsection \<open>The cache only grows\<close>

lemma store_results_ok: "snd (store_results results cache) = (Not_an_object \<notin> set results)"
  by (induction results cache rule: store_results.induct) auto




lemma mark_private_dom: "map_of cache ip \<noteq> None \<Longrightarrow> map_of (mark_private ips cache) ip \<noteq> None"
  by (induction ips arbitrary: cache) auto


lemma mark_private_none:
  assumes "map_of (mark_private ips cache) ip = None"
  shows "map_of cache ip = None"
proof (rule ccontr)
  assume "map_of cache ip \<noteq> None"
  then have "map_of (mark_private ips cache) ip \<noteq> None" by (rule mark_private_dom)
  with assms show False by simp
qed

lemma mark_private_local:
  "ip \<in> set ips \<Longrightarrow> is_private_ip ip \<Longrightarrow> map_of (mark_private ips cache) ip \<noteq> None"
proof (induction ips arbitrary: cache)
  case Nil
  then show ?case by simp
next
  case (Cons a ips)
  let ?c = "if map_of cache a = None \<and> is_private_ip a then (a, local_entry) # cache else cache"
  show ?case
  proof (cases "ip = a")
    case True
    then have "map_of ?c ip \<noteq> None" using Cons.prems by auto
    then have "map_of (mark_private ips ?c) ip \<noteq> None" by (rule mark_private_dom)
    then show ?thesis by simp
  next
    case False
    then have "ip \<in> set ips" using Cons.prems by simp
    then have "map_of (mark_private ips ?c) ip \<noteq> None" using Cons.prems(2) by (rule Cons.IH)
    then show ?thesis by simp
  qed
qed

subsection \<open>The batches\<close>

lemma run_batches_step:
  "run_batches svc (ip # ips) cache =
     (if complete (svc (take 100 (ip # ips)))
      then (fst (run_batches svc (drop 100 (ip # ips)) (reply_cache (svc (take 100 (ip # ips))) cache)),
            take 100 (ip # ips) #
            snd (run_batches svc (drop 100 (ip # ips)) (reply_cache (svc (take 100 (ip # ips))) cache)))
      else (reply_cache (svc (take 100 (ip # ips))) cache, [take 100 (ip # ips)]))"
proof (cases "svc (take 100 (ip # ips))")
  case Failure
  then show ?thesis by simp
next
  case (Reply results)
  obtain cache' ok where s: "store_results results cache = (cache', ok)"
    by (cases "store_results results cache")
  then have ok: "ok = (Not_an_object \<notin> set results)"
    using store_results_ok [of results cache] by simp
  show ?thesis
    using Reply s ok
    by (simp del: take_Cons_numeral drop_Cons_numeral add: split_beta)
qed

lemma run_batches_induct [case_names Nil Stop Go]:
  assumes "\<And>cache. P [] cache"
    and "\<And>ip ips cache. \<not> complete (svc (take 100 (ip # ips))) \<Longrightarrow> P (ip # ips) cache"
    and "\<And>ip ips cache. complete (svc (take 100 (ip # ips))) \<Longrightarrow>
           P (drop 100 (ip # ips)) (reply_cache (svc (take 100 (ip # ips))) cache) \<Longrightarrow>
           P (ip # ips) cache"
  shows "P ips cache"
proof (induction ips arbitrary: cache rule: length_induct)
  case (1 xs)
  show ?case
  proof (cases xs)
    case Nil
    then show ?thesis using assms(1) by simp
  next
    case (Cons ip ips)
    show ?thesis
    proof (cases "complete (svc (take 100 (ip # ips)))")
      case True
      have "length (drop 100 (ip # ips)) < length xs" using Cons by simp
      then have "P (drop 100 (ip # ips)) (reply_cache (svc (take 100 (ip # ips))) cache)"
        using "1.IH" by blast
      then show ?thesis using assms(3) [OF True] Cons by simp
    next
      case False
      then show ?thesis using assms(2) Cons by simp
    qed
  qed
qed




lemma run_batches_requests:
  "set (concat (snd (run_batches svc ips cache))) \<subseteq> set ips"
proof (induction ips cache rule: run_batches_induct [where svc = svc])
  case (Nil cache)
  show ?case by simp
next
  case (Stop ip ips cache)
  have "set (take 100 (ip # ips)) \<subseteq> set (ip # ips)" by (rule set_take_subset)
  then show ?case using Stop by (simp add: run_batches_step del: take_Cons_numeral drop_Cons_numeral run_batches.simps)
next
  case (Go ip ips cache)
  have "set (take 100 (ip # ips)) \<subseteq> set (ip # ips)" by (rule set_take_subset)
  moreover have "set (drop 100 (ip # ips)) \<subseteq> set (ip # ips)" by (rule set_drop_subset)
  ultimately show ?case using Go
    by (simp add: run_batches_step del: take_Cons_numeral drop_Cons_numeral run_batches.simps)
qed





subsection \<open>The lookup as a whole\<close>


lemma lookup_countries_snd:
  "snd (lookup_countries svc ips cache) =
     (if new_ips_of ips cache = [] then []
      else snd (run_batches svc (new_ips_of ips cache) cache))"
  by (simp add: lookup_countries_def split_beta)

lemma lookup_countries_requests:
  assumes "b \<in> set (snd (lookup_countries svc ips cache))" and "ip \<in> set b"
  shows "ip \<in> set ips \<and> map_of cache ip = None \<and> \<not> is_private_ip ip"
proof -
  have "b \<in> set (snd (run_batches svc (new_ips_of ips cache) cache))"
    using assms(1) by (simp add: lookup_countries_snd split: if_splits)
  then have "ip \<in> set (concat (snd (run_batches svc (new_ips_of ips cache) cache)))"
    using assms(2) by auto
  then have "ip \<in> set (new_ips_of ips cache)"
    using run_batches_requests [of svc "new_ips_of ips cache" cache] by blast
  then show ?thesis by (simp add: new_ips_of_def)
qed





subsection \<open>Identifiers without an entry, in the report\<close>

lemma set_sort_desc [simp]: "set (sort_desc f xs) = set xs"
  by (simp add: sort_desc_def)








subsection \<open>The heartbeats of one key\<close>

lemma heartbeats_Nil: "heartbeats fi [] = []"
  by (simp add: heartbeats_def List.map_filter_simps)

lemma heartbeats_Cons:
  "heartbeats fi (line # ls) =
     (case np_parse_line fi line of None \<Rightarrow> heartbeats fi ls | Some h \<Rightarrow> h # heartbeats fi ls)"
  by (simp add: heartbeats_def List.map_filter_simps split: option.splits)

lemma np_scan_of_key:
  "filter (candidate_of_key key) (np_scan fi np_sessions lines) =
     map candidate
       (case np_sessions key of
          None \<Rightarrow> session_starts (filter (of_key key) (heartbeats fi lines))
        | Some last_ts \<Rightarrow> later_starts last_ts (filter (of_key key) (heartbeats fi lines)))"
proof (induction lines arbitrary: np_sessions)
  case Nil
  show ?case by (simp add: heartbeats_Nil split: option.splits)
next
  case (Cons line ls)
  show ?case
  proof (cases "np_parse_line fi line")
    case None
    then show ?thesis using Cons.IH [of np_sessions]
      by (simp add: heartbeats_Cons split: option.splits)
  next
    case (Some h)
    obtain ip song ua ts where h: "h = (ip, song, ua, ts)" by (cases h)
    let ?s = "np_sessions((ip, song) \<mapsto> ts)"
    have scan: "np_scan fi np_sessions (line # ls) =
        (if new_session np_sessions (ip, song) ts
         then [(ip, song, isoformat ts @ ''Z'', ua, ts)] else []) @ np_scan fi ?s ls"
      using Some h by simp
    have hb: "heartbeats fi (line # ls) = (ip, song, ua, ts) # heartbeats fi ls"
      using Some h by (simp add: heartbeats_Cons)
    show ?thesis
    proof (cases "(ip, song) = key")
      case True
      have ih: "filter (candidate_of_key key) (np_scan fi ?s ls) =
          map candidate (later_starts ts (filter (of_key key) (heartbeats fi ls)))"
      proof -
        have sk: "?s key = Some ts" using True by auto
        show ?thesis unfolding Cons.IH [of ?s] sk by simp
      qed
      have c: "candidate_of_key key (ip, song, isoformat ts @ ''Z'', ua, ts)"
        using True by (simp add: candidate_of_key_def)
      have k: "of_key key (ip, song, ua, ts)" using True by (simp add: of_key_def)
      have cd: "candidate (ip, song, ua, ts) = (ip, song, isoformat ts @ ''Z'', ua, ts)"
        by (simp add: candidate_def)
      show ?thesis
      proof (cases "np_sessions key")
        case None
        then have "new_session np_sessions (ip, song) ts"
          using True by (simp add: new_session_def)
        then show ?thesis unfolding scan hb using None ih c k cd by (simp add: heartbeat_time_def)
      next
        case (Some last_ts)
        then have "new_session np_sessions (ip, song) ts =
            (to_microseconds ts - to_microseconds last_ts > 30000000)"
          using True by (simp add: new_session_def)
        then show ?thesis unfolding scan hb using Some ih c k cd by (simp add: heartbeat_time_def)
      qed
    next
      case False
      have ih: "filter (candidate_of_key key) (np_scan fi ?s ls) =
          map candidate
            (case np_sessions key of
               None \<Rightarrow> session_starts (filter (of_key key) (heartbeats fi ls))
             | Some last_ts \<Rightarrow> later_starts last_ts (filter (of_key key) (heartbeats fi ls)))"
      proof -
        have sk: "?s key = np_sessions key" using False by auto
        show ?thesis unfolding Cons.IH [of ?s] sk by simp
      qed
      have c: "\<not> candidate_of_key key (ip, song, isoformat ts @ ''Z'', ua, ts)"
        using False by (simp add: candidate_of_key_def)
      have k: "\<not> of_key key (ip, song, ua, ts)" using False by (simp add: of_key_def)
      show ?thesis unfolding scan hb using ih c k by (simp split: option.splits)
    qed
  qed
qed

lemma np_scan_sessions:
  "filter (candidate_of_key key) (np_scan fi Map.empty lines) =
     map candidate (session_starts (filter (of_key key) (heartbeats fi lines)))"
  by (simp add: np_scan_of_key)


lemma later_starts_pair:
  "later_starts prev (pre @ h1 # h2 # post) =
     later_starts prev (pre @ [h1]) @
     (if to_microseconds (heartbeat_time h2) - to_microseconds (heartbeat_time h1) > 30000000
      then [h2] else []) @
     later_starts (heartbeat_time h2) post"
  by (induction pre arbitrary: prev) simp_all

lemma session_starts_pair:
  "session_starts (pre @ h1 # h2 # post) =
     session_starts (pre @ [h1]) @
     (if to_microseconds (heartbeat_time h2) - to_microseconds (heartbeat_time h1) > 30000000
      then [h2] else []) @
     later_starts (heartbeat_time h2) post"
  by (cases pre) (simp_all add: later_starts_pair)


subsection \<open>The hour counter counts the hours of the plays\<close>

lemma played_hours_snoc:
  "plays st' = plays st @ [p] \<Longrightarrow>
   played_hours st' =
     played_hours st @ (case py_int (slice 11 13 (p_t p)) of None \<Rightarrow> [] | Some h \<Rightarrow> [h])"
  by (simp add: played_hours_def List.map_filter_def split: option.splits)

lemma count_hours_snoc: "count_hours (hs @ [h]) = bump h (count_hours hs)"
  by (simp add: count_hours_def)

lemma hours_match_same:
  "hourly_activity st' = hourly_activity st \<Longrightarrow> plays st' = plays st \<Longrightarrow>
   hours_match st' = hours_match st"
  by (simp add: hours_match_def played_hours_def)

lemma hours_match_record_play:
  assumes "hours_match st"
  shows "hours_match (record_play gdi ip song t ua st)"
proof -
  let ?p = "\<lparr>p_t = t, p_ip = ip, p_s = song, p_ua = take 120 ua,
             p_device = device (gdi ua), p_browser = browser (gdi ua), p_os = os (gdi ua)\<rparr>"
  have "played_hours (record_play gdi ip song t ua st) =
      played_hours st @ (case py_int (slice 11 13 (p_t ?p)) of None \<Rightarrow> [] | Some h \<Rightarrow> [h])"
    by (rule played_hours_snoc) simp
  then show ?thesis
    using assms by (simp add: hours_match_def count_hour_def count_hours_snoc split: option.splits)
qed

lemma hours_match_process_access_line:
  "hours_match st \<Longrightarrow> hours_match (process_access_line gdi st line)"
  by (auto simp: process_access_line_def process_match_def hours_match_record_play
      hours_match_same [of "count_page_view _ _"]
      split: option.splits)

lemma hours_match_primary_pass: "hours_match (primary_pass gdi lines)"
proof -
  have "hours_match (foldl (process_access_line gdi) init_state lines)"
    by (rule foldl_invariant)
      (simp_all add: hours_match_process_access_line,
       simp add: hours_match_def init_state_def played_hours_def count_hours_def
         List.map_filter_simps)
  then show ?thesis
    by (simp add: primary_pass_def Let_def hours_match_same [of "_\<lparr>known_plays := _\<rparr>"])
qed

lemma hours_match_confirm_play: "hours_match st \<Longrightarrow> hours_match (confirm_play gdi ip song t ua st)"
  unfolding confirm_play_def
  by (rule hours_match_record_play) (simp add: hours_match_same [of "_\<lparr>known_plays := _\<rparr>"])

lemma hours_match_add_np_entry: "hours_match st \<Longrightarrow> hours_match (add_np_entry gdi st e)"
  by (auto simp: add_np_entry_def hours_match_confirm_play split: prod.splits)

lemma hours_match_heartbeat_pass: "hours_match st \<Longrightarrow> hours_match (heartbeat_pass gdi fi lines st)"
  unfolding heartbeat_pass_def by (rule foldl_invariant) (simp_all add: hours_match_add_np_entry)

lemma hours_match_track_play: "hours_match st \<Longrightarrow> hours_match (track_play gdi fi ip song t ua st)"
  using hours_match_confirm_play [of st gdi ip song _ ua]
  by (auto simp: track_play_def Let_def hours_match_same [of "_\<lparr>track_plays_added := _\<rparr>"]
      split: option.splits)

lemma hours_match_process_track_line:
  "hours_match st \<Longrightarrow> hours_match (process_track_line gdi fi st line)"
  by (auto simp: process_track_line_def Let_def hours_match_track_play
      hours_match_same [of "add_duration _ _ _"])

lemma hours_match_track_pass: "hours_match st \<Longrightarrow> hours_match (track_pass gdi fi lines st)"
  unfolding track_pass_def by (rule foldl_invariant) (simp_all add: hours_match_process_track_line)

lemma hours_match_collect: "hours_match (collect w fs lines)"
  by (simp add: collect_def Let_def hours_match_primary_pass hours_match_heartbeat_pass
      hours_match_track_pass split: option.splits)


subsection \<open>The first of the most played hours\<close>

lemma map_of_bump:
  "map_of (bump k d) k' =
     (if k' = k then Some (case map_of d k of None \<Rightarrow> 1 | Some v \<Rightarrow> Suc v) else map_of d k')"
  by (induction d) auto

lemma map_of_count_hours:
  "map_of (count_hours hs) h = (if h \<in> set hs then Some (count_list hs h) else None)"
proof (induction hs arbitrary: h rule: rev_induct)
  case Nil
  show ?case by (simp add: count_hours_def)
next
  case (snoc x xs)
  show ?case
    by (simp add: count_hours_snoc map_of_bump snoc.IH)
qed

lemma get_or_count_hours: "get_or 0 (map_of (count_hours hs) h) = count_list hs h"
  by (simp add: map_of_count_hours get_or_def)

lemma distinct_count_hours: "distinct (map fst (count_hours hs))"
  by (induction hs rule: rev_induct) (simp_all add: count_hours_def distinct_bump)

lemma keys_count_hours: "fst ` set (count_hours hs) = set hs"
proof -
  have "dom (map_of (count_hours hs)) = set hs"
    by (auto simp: map_of_count_hours split: if_splits)
  then show ?thesis by (simp add: dom_map_of_conv_image_fst)
qed

lemma entry_count_hours: "(h, c) \<in> set (count_hours hs) \<Longrightarrow> c = count_list hs h \<and> h \<in> set hs"
proof -
  assume a: "(h, c) \<in> set (count_hours hs)"
  then have "map_of (count_hours hs) h = Some c"
    using distinct_count_hours [of hs] by simp
  then show ?thesis by (simp add: map_of_count_hours split: if_splits)
qed

lemma keys_before_bump:
  "p \<in> fst ` set d \<Longrightarrow>
   takeWhile (\<lambda>k. k \<noteq> p) (map fst (bump k d)) = takeWhile (\<lambda>k. k \<noteq> p) (map fst d)"
proof (induction d)
  case Nil
  then show ?case by simp
next
  case (Cons e d)
  obtain a v where e: "e = (a, v)" by (cases e)
  show ?case
  proof (cases "a = p")
    case True
    then show ?thesis by (simp add: e)
  next
    case False
    then have "p \<in> fst ` set d" using Cons.prems by (auto simp: e)
    then show ?thesis using Cons.IH False by (simp add: e)
  qed
qed

lemma key_stays_bump: "p \<in> fst ` set d \<Longrightarrow> p \<in> fst ` set (bump k d)"
proof (induction d)
  case Nil
  then show ?case by simp
next
  case (Cons e d)
  obtain a v where e: "e = (a, v)" by (cases e)
  show ?case
  proof (cases "a = p")
    case True
    then show ?thesis by (simp add: e)
  next
    case False
    then have "p \<in> fst ` set d" using Cons.prems by (auto simp: e)
    then show ?thesis using Cons.IH by (simp add: e)
  qed
qed

lemma keys_before_foldl:
  "p \<in> fst ` set d \<Longrightarrow>
   takeWhile (\<lambda>k. k \<noteq> p) (map fst (foldl (\<lambda>d h. bump h d) d hs)) =
     takeWhile (\<lambda>k. k \<noteq> p) (map fst d)"
proof (induction hs arbitrary: d)
  case Nil
  show ?case by simp
next
  case (Cons h hs)
  have "takeWhile (\<lambda>k. k \<noteq> p) (map fst (foldl (\<lambda>d h. bump h d) (bump h d) hs)) =
      takeWhile (\<lambda>k. k \<noteq> p) (map fst (bump h d))"
    by (rule Cons.IH) (rule key_stays_bump [OF Cons.prems])
  then show ?case by (simp add: keys_before_bump [OF Cons.prems])
qed

lemma keys_before_first:
  assumes "p \<notin> set pre"
  shows "takeWhile (\<lambda>k. k \<noteq> p) (map fst (count_hours (pre @ p # post))) =
     map fst (count_hours pre)"
proof -
  have n: "p \<notin> fst ` set (count_hours pre)"
    using assms by (simp add: keys_count_hours)
  have b: "map fst (bump p (count_hours pre)) = map fst (count_hours pre) @ [p]"
    by (rule map_fst_bump_new [OF n])
  have i: "p \<in> fst ` set (bump p (count_hours pre))"
  proof -
    have "p \<in> set (map fst (bump p (count_hours pre)))" unfolding b by simp
    then show ?thesis by simp
  qed
  have "count_hours (pre @ p # post) = foldl (\<lambda>d h. bump h d) (bump p (count_hours pre)) post"
    by (simp add: count_hours_def)
  then have "takeWhile (\<lambda>k. k \<noteq> p) (map fst (count_hours (pre @ p # post))) =
      takeWhile (\<lambda>k. k \<noteq> p) (map fst (bump p (count_hours pre)))"
    by (simp add: keys_before_foldl [OF i])
  also have "\<dots> = map fst (count_hours pre)"
    unfolding b using n by (subst takeWhile_append2) auto
  finally show ?thesis .
qed

lemma peak_of_count_hours:
  assumes "hs \<noteq> []"
  shows "\<exists>pre post. hs = pre @ peak_hour_of (count_hours hs) # post \<and>
     peak_hour_of (count_hours hs) \<notin> set pre \<and>
     (\<forall>h\<in>set pre. count_list hs h < count_list hs (peak_hour_of (count_hours hs))) \<and>
     (\<forall>h. count_list hs h \<le> count_list hs (peak_hour_of (count_hours hs)))"
proof -
  let ?T = "count_hours hs"
  define p where "p = peak_hour_of ?T"
  have ne: "?T \<noteq> []"
  proof
    assume "?T = []"
    then have "fst ` set ?T = {}" by simp
    then show False using assms by (simp add: keys_count_hours)
  qed
  from peak_hour_first_max [OF ne] obtain tpre c tpost where
    t: "?T = tpre @ (p, c) # tpost"
    and lt: "\<forall>x\<in>set tpre. snd x < c"
    and le: "\<forall>x\<in>set tpost. snd x \<le> c"
    unfolding p_def by blast
  have pin: "(p, c) \<in> set ?T" by (subst t) simp
  have c: "c = count_list hs p" and ph: "p \<in> set hs"
    using entry_count_hours [OF pin] by simp_all
  from split_list_first [OF ph] obtain pre post where
    hs: "hs = pre @ p # post" and np: "p \<notin> set pre"
    by blast
  have d: "distinct (map fst tpre @ p # map fst tpost)"
    using distinct_count_hours [of hs] by (subst (asm) t) simp
  then have npt: "p \<notin> set (map fst tpre)" by simp
  have "takeWhile (\<lambda>k. k \<noteq> p) (map fst ?T) = map fst tpre"
  proof -
    have "takeWhile (\<lambda>k. k \<noteq> p) (map fst tpre @ p # map fst tpost) = map fst tpre"
      using npt by (subst takeWhile_append2) auto
    then show ?thesis by (subst t) simp
  qed
  moreover have "takeWhile (\<lambda>k. k \<noteq> p) (map fst ?T) = map fst (count_hours pre)"
    using keys_before_first [OF np, of post] hs by simp
  ultimately have "map fst tpre = map fst (count_hours pre)" by simp
  then have "set (map fst tpre) = set (map fst (count_hours pre))" by simp
  then have keys: "fst ` set tpre = set pre" by (simp add: keys_count_hours)
  have before: "\<forall>h\<in>set pre. count_list hs h < count_list hs p"
  proof
    fix h assume "h \<in> set pre"
    then have "h \<in> fst ` set tpre" using keys by simp
    then obtain x where x: "x \<in> set tpre" "fst x = h" by (auto simp: image_iff)
    then have "(h, snd x) \<in> set ?T" by (subst t) auto
    then have "snd x = count_list hs h" using entry_count_hours by blast
    then show "count_list hs h < count_list hs p" using lt x c by auto
  qed
  have all: "\<forall>h. count_list hs h \<le> count_list hs p"
  proof
    fix h
    show "count_list hs h \<le> count_list hs p"
    proof (cases "h \<in> set hs")
      case False
      then show ?thesis by simp
    next
      case True
      then have "map_of ?T h = Some (count_list hs h)" by (simp add: map_of_count_hours)
      then have "(h, count_list hs h) \<in> set ?T" by (rule map_of_SomeD)
      then have "(h, count_list hs h) \<in> set tpre \<or> (h, count_list hs h) = (p, c) \<or>
          (h, count_list hs h) \<in> set tpost"
        by (subst (asm) t) auto
      then show ?thesis using lt le c by force
    qed
  qed
  show ?thesis using hs np before all unfolding p_def by blast
qed

lemma plays_heartbeat_pass: "\<exists>A. plays (heartbeat_pass gdi fi lines st) = plays st @ A"
proof -
  have s: "\<exists>B. plays (add_np_entry gdi s e) = plays s @ B" for s :: state and e
    by (auto simp: add_np_entry_def confirm_play_def split: prod.splits)
  have "\<exists>A. plays (foldl (add_np_entry gdi) st es) = plays st @ A" for es
  proof (rule foldl_invariant [where P = "\<lambda>s :: state. \<exists>A. plays s = plays st @ A"])
    show "\<exists>A. plays st = plays st @ A" by simp
  next
    fix s :: state and x
    assume "\<exists>A. plays s = plays st @ A"
    then obtain A where a: "plays s = plays st @ A" ..
    from s [of s x] obtain B where "plays (add_np_entry gdi s x) = plays s @ B" ..
    then have "plays (add_np_entry gdi s x) = plays st @ (A @ B)" using a by simp
    then show "\<exists>A. plays (add_np_entry gdi s x) = plays st @ A" ..
  qed
  then show ?thesis by (simp add: heartbeat_pass_def)
qed

lemma plays_track_pass: "\<exists>A. plays (track_pass gdi fi lines st) = plays st @ A"
proof -
  have s: "\<exists>B. plays (process_track_line gdi fi s e) = plays s @ B" for s :: state and e
    by (auto simp: process_track_line_def Let_def track_play_def confirm_play_def
        split: option.splits)
  have "\<exists>A. plays (foldl (process_track_line gdi fi) st es) = plays st @ A" for es
  proof (rule foldl_invariant [where P = "\<lambda>s :: state. \<exists>A. plays s = plays st @ A"])
    show "\<exists>A. plays st = plays st @ A" by simp
  next
    fix s :: state and x
    assume "\<exists>A. plays s = plays st @ A"
    then obtain A where a: "plays s = plays st @ A" ..
    from s [of s x] obtain B where "plays (process_track_line gdi fi s x) = plays s @ B" ..
    then have "plays (process_track_line gdi fi s x) = plays st @ (A @ B)" using a by simp
    then show "\<exists>A. plays (process_track_line gdi fi s x) = plays st @ A" ..
  qed
  then show ?thesis by (simp add: track_pass_def)
qed

lemma collect_after_heartbeat:
  "collect w fs lines =
     (case TRACK_LOG_FILE fs of None \<Rightarrow> after_heartbeat w fs lines
      | Some ls \<Rightarrow> track_pass (get_device_info (HAS_UA w) (parse_ua w)) (fromisoformat w) ls
          (after_heartbeat w fs lines))"
  by (simp add: collect_def after_heartbeat_def Let_def split: option.splits)

lemma plays_after_heartbeat:
  "\<exists>A. plays (after_heartbeat w fs lines) =
     plays (primary_pass (get_device_info (HAS_UA w) (parse_ua w)) lines) @ A"
  by (simp add: after_heartbeat_def Let_def plays_heartbeat_pass split: option.splits)

lemma plays_collect:
  "\<exists>B. plays (collect w fs lines) = plays (after_heartbeat w fs lines) @ B"
  by (simp add: collect_after_heartbeat plays_track_pass split: option.splits)

section \<open>Claims\<close>

text \<open>
  C1, as the code has it. The plays of the primary log are all kept, in order, at the head
  of the list of plays. The plays added after them, from the heartbeat and track-event
  logs, have pairwise different triples of listener, song and minute, and none of them has
  the triple of a play of the primary log. Two plays of the primary log itself may share
  a triple: that pass checks nothing.
\<close>

theorem plays_added_after_primary_log_are_deduplicated:
  "take (length (plays (primary_pass (get_device_info (HAS_UA w) (parse_ua w)) lines)))
      (plays (collect w fs lines)) =
     plays (primary_pass (get_device_info (HAS_UA w) (parse_ua w)) lines) \<and>
   distinct (map play_key
     (drop (length (plays (primary_pass (get_device_info (HAS_UA w) (parse_ua w)) lines)))
        (plays (collect w fs lines)))) \<and>
   set (map play_key
     (drop (length (plays (primary_pass (get_device_info (HAS_UA w) (parse_ua w)) lines)))
        (plays (collect w fs lines)))) \<inter>
   set (map play_key (plays (primary_pass (get_device_info (HAS_UA w) (parse_ua w)) lines))) = {}"
  using dedup_ok_collect [of w lines fs] by (simp add: dedup_ok_def)

text \<open>
  C1 as the claim states it fails: two requests of the primary log by one listener for one
  song within one minute are two plays with the same triple.
\<close>

theorem primary_log_plays_share_triple_counterexample:
  "map_option (\<lambda>r. (r_total_plays r, map play_key (r_recent_plays r)))
     (report_of offline_world scenario_dup) =
   Some (2, [(''1.2.3.4'', ''brormand'', ''2025-01-01T10:00''),
             (''1.2.3.4'', ''brormand'', ''2025-01-01T10:00'')])"
  by code_simp

text \<open>
  C2, as the code has it. With one play of \<^verbatim>\<open>/audio/kokosnoed.mp3\<close> in the primary log
  and one \<^verbatim>\<open>end\<close> event of 185 seconds for the same listener and song in the track-event
  log, every run that can write its report gives \<^verbatim>\<open>total_plays = 1\<close> and
  \<^verbatim>\<open>total_listen_minutes = 3.1\<close>, and counts the play under the name taken from the
  file, \<^verbatim>\<open>per_song = {'kokosnoed': 1}\<close>: song names of the primary log are not mapped to
  the canonical form. The listening time, which comes from the track-event log, is booked
  under \<^verbatim>\<open>som-en-kokosnoed\<close>.
\<close>

theorem scenario_A_counts_the_file_name:
  assumes "output_writable w"
  shows "\<exists>r. report_of w scenario_A = Some r \<and> r_total_plays r = 1 \<and>
           r_per_song r = [(''kokosnoed'', 1)] \<and>
           r_total_listen_minutes r = 31 / 10 \<and>
           r_per_song_duration r = [(''som-en-kokosnoed'', 31 / 10)]"
proof -
  let ?ls = "[access_line ''1.2.3.4'' ''01/Jan/2025:10:00:05 +0000'' ''/audio/kokosnoed.mp3'' ''200''
               ''Mozilla/5.0'']"
  have l: "LOG_FILE scenario_A = Some ?ls"
    by (simp add: scenario_A_def only_logs_def)
  from scenario_A_tally [of w] have
    t: "length (plays (collect w scenario_A ?ls)) = 1"
       "per_song (collect w scenario_A ?ls) = [(''kokosnoed'', 1)]"
       "per_song_duration (collect w scenario_A ?ls) = [(''som-en-kokosnoed'', 185)]"
       "total_listen_time (collect w scenario_A ?ls) = 185"
    by (simp_all add: tally_def)
  show ?thesis
    unfolding report_written [OF l assms]
    by (simp add: build_report_def Let_def t round1_185)
qed

text \<open>The same in the world without user-agent package and without network.\<close>

theorem scenario_A_counts_the_file_name_witness:
  "\<exists>r. report_of offline_world scenario_A = Some r \<and> r_total_plays r = 1 \<and>
         r_per_song r = [(''kokosnoed'', 1)] \<and>
         r_total_listen_minutes r = 31 / 10 \<and>
         r_per_song_duration r = [(''som-en-kokosnoed'', 31 / 10)]"
proof -
  have h: "output_writable offline_world"
    by (simp add: offline_world_def)
  show ?thesis by (rule scenario_A_counts_the_file_name [OF h])
qed

text \<open>
  C2 as the claim states it fails: the report has no entry \<^verbatim>\<open>som-en-kokosnoed\<close> in
  \<^verbatim>\<open>per_song\<close>; the play is under \<^verbatim>\<open>kokosnoed\<close>.
\<close>

theorem scenario_A_canonical_song_counterexample:
  "map_option (\<lambda>r. (r_total_plays r, map_of (r_per_song r) ''som-en-kokosnoed'',
                    map_of (r_per_song r) ''kokosnoed'', r_total_listen_minutes r))
     (report_of offline_world scenario_A) = Some (1, None, Some 1, 31 / 10)"
  by code_simp

text \<open>
  C3, as the code has it. For every key of listener and song, whatever else the heartbeat
  log holds, the candidate plays of the key are the session starts of the key's own
  heartbeats: the first of them, and every later one that is more than 30 seconds after
  the heartbeat of the same key just before it. So of two consecutive heartbeats of a key
  the second gives a candidate play exactly when it is more than 30 seconds after the
  first (not when it is earlier). In a run with an empty primary log, two heartbeats of one
  key as the heartbeat log and no track-event log, the report counts two plays only when
  there are two candidates and their timestamps fall in different minutes; two candidates
  within one minute share their triple of listener, song and minute, and the second is
  dropped.
\<close>

theorem heartbeat_sessions_of_each_key:
  "filter (candidate_of_key key) (np_scan fi Map.empty lines) =
     map candidate (session_starts (filter (of_key key) (heartbeats fi lines))) \<and>
   (filter (of_key key) (heartbeats fi lines) = pre @ h1 # h2 # post \<longrightarrow>
      filter (candidate_of_key key) (np_scan fi Map.empty lines) =
        map candidate (session_starts (pre @ [h1])) @
        (if to_microseconds (heartbeat_time h2) - to_microseconds (heartbeat_time h1) > 30000000
         then [candidate h2] else []) @
        map candidate (later_starts (heartbeat_time h2) post)) \<and>
   (LOG_FILE fs = Some [] \<and> NP_LOG_FILE fs = Some [l1, l2] \<and> TRACK_LOG_FILE fs = None \<and>
    output_writable w \<and>
    np_parse_line (fromisoformat w) l1 = Some (ip, song, ua1, t1) \<and>
    np_parse_line (fromisoformat w) l2 = Some (ip, song, ua2, t2) \<longrightarrow>
      (\<exists>r. report_of w fs = Some r \<and>
         r_total_plays r =
           (if to_microseconds t2 - to_microseconds t1 > 30000000 \<and>
               take 16 (isoformat t1 @ ''Z'') \<noteq> take 16 (isoformat t2 @ ''Z'')
            then 2 else 1)))"
proof (intro conjI impI)
  show a: "filter (candidate_of_key key) (np_scan fi Map.empty lines) =
      map candidate (session_starts (filter (of_key key) (heartbeats fi lines)))"
    by (rule np_scan_sessions)
  show "filter (candidate_of_key key) (np_scan fi Map.empty lines) =
      map candidate (session_starts (pre @ [h1])) @
      (if to_microseconds (heartbeat_time h2) - to_microseconds (heartbeat_time h1) > 30000000
       then [candidate h2] else []) @
      map candidate (later_starts (heartbeat_time h2) post)"
    if "filter (of_key key) (heartbeats fi lines) = pre @ h1 # h2 # post"
    unfolding a that session_starts_pair by simp
  show "\<exists>r. report_of w fs = Some r \<and>
      r_total_plays r =
        (if to_microseconds t2 - to_microseconds t1 > 30000000 \<and>
            take 16 (isoformat t1 @ ''Z'') \<noteq> take 16 (isoformat t2 @ ''Z'')
         then 2 else 1)"
    if h: "LOG_FILE fs = Some [] \<and> NP_LOG_FILE fs = Some [l1, l2] \<and> TRACK_LOG_FILE fs = None \<and>
      output_writable w \<and>
      np_parse_line (fromisoformat w) l1 = Some (ip, song, ua1, t1) \<and>
      np_parse_line (fromisoformat w) l2 = Some (ip, song, ua2, t2)"
  proof -
    have f: "LOG_FILE fs = Some []" "NP_LOG_FILE fs = Some [l1, l2]" "TRACK_LOG_FILE fs = None"
      and o: "output_writable w"
      and p1: "np_parse_line (fromisoformat w) l1 = Some (ip, song, ua1, t1)"
      and p2: "np_parse_line (fromisoformat w) l2 = Some (ip, song, ua2, t2)"
      using h by simp_all
    have c: "collect w fs [] =
        heartbeat_pass (get_device_info (HAS_UA w) (parse_ua w)) (fromisoformat w) [l1, l2]
          init_state"
      using f(2,3) by (simp add: collect_def Let_def primary_pass_empty)
    have "r_total_plays (build_report now cache (collect w fs [])) =
        (if to_microseconds t2 - to_microseconds t1 > 30000000 \<and>
            take 16 (isoformat t1 @ ''Z'') \<noteq> take 16 (isoformat t2 @ ''Z'')
         then 2 else 1)" for now cache
      unfolding c by (simp add: build_report_def Let_def heartbeat_pass_two [OF p1 p2])
    then show ?thesis
      unfolding report_written [OF f(1) o] by simp
  qed
qed

text \<open>
  Two heartbeats of one listener 45 seconds apart, with a heartbeat of another listener in
  between that is 20 seconds after the first and 25 seconds before the second, are two
  candidate plays of the first listener; and two heartbeats 45 seconds apart across the
  turn of a minute are two counted plays.
\<close>

theorem heartbeat_sessions_of_each_key_witness:
  "filter (candidate_of_key (''1.2.3.4'', ''brormand''))
     (np_scan fromisoformat_documented Map.empty
        [''1.2.3.4|2025-01-01T10:00:30Z|brormand|5|Mozilla/5.0'',
         ''5.6.7.8|2025-01-01T10:00:50Z|brormand|5|Mozilla/5.0'',
         ''1.2.3.4|2025-01-01T10:01:15Z|brormand|50|Mozilla/5.0'']) =
     [(''1.2.3.4'', ''brormand'', ''2025-01-01T10:00:30Z'', ''Mozilla/5.0'',
       \<lparr>year = 2025, month = 1, day = 1, hour = 10, minute = 0, second = 30, microsecond = 0\<rparr>),
      (''1.2.3.4'', ''brormand'', ''2025-01-01T10:01:15Z'', ''Mozilla/5.0'',
       \<lparr>year = 2025, month = 1, day = 1, hour = 10, minute = 1, second = 15, microsecond = 0\<rparr>)] \<and>
   (\<exists>r. report_of offline_world scenario_C_next_minute = Some r \<and> r_total_plays r = 2)"
proof -
  let ?l1 = "''1.2.3.4|2025-01-01T10:00:30Z|brormand|5|Mozilla/5.0''"
  let ?lx = "''5.6.7.8|2025-01-01T10:00:50Z|brormand|5|Mozilla/5.0''"
  let ?l2 = "''1.2.3.4|2025-01-01T10:01:15Z|brormand|50|Mozilla/5.0''"
  let ?t1 = "\<lparr>year = 2025, month = 1, day = 1, hour = 10, minute = 0, second = 30, microsecond = 0\<rparr>"
  let ?t2 = "\<lparr>year = 2025, month = 1, day = 1, hour = 10, minute = 1, second = 15, microsecond = 0\<rparr>"
  let ?h1 = "(''1.2.3.4'', ''brormand'', ''Mozilla/5.0'', ?t1)"
  let ?h2 = "(''1.2.3.4'', ''brormand'', ''Mozilla/5.0'', ?t2)"
  have f: "LOG_FILE scenario_C_next_minute = Some []"
    "NP_LOG_FILE scenario_C_next_minute = Some [?l1, ?l2]"
    "TRACK_LOG_FILE scenario_C_next_minute = None"
    by (simp_all add: scenario_C_next_minute_def only_logs_def)
  have o: "output_writable offline_world" "fromisoformat offline_world = fromisoformat_documented"
    by (simp_all add: offline_world_def)
  have p1: "np_parse_line fromisoformat_documented ?l1 = Some ?h1"
    by code_simp
  have p2: "np_parse_line fromisoformat_documented ?l2 = Some ?h2"
    by code_simp
  have hs: "filter (of_key (''1.2.3.4'', ''brormand''))
      (heartbeats fromisoformat_documented [?l1, ?lx, ?l2]) = [] @ ?h1 # ?h2 # []"
    by code_simp
  have gap: "to_microseconds (heartbeat_time ?h2) - to_microseconds (heartbeat_time ?h1) > 30000000"
    "to_microseconds ?t2 - to_microseconds ?t1 > 30000000"
    by code_simp+
  have key: "take 16 (isoformat ?t1 @ ''Z'') \<noteq> take 16 (isoformat ?t2 @ ''Z'')"
    by code_simp
  have c: "candidate ?h1 = (''1.2.3.4'', ''brormand'', ''2025-01-01T10:00:30Z'', ''Mozilla/5.0'', ?t1)"
    "candidate ?h2 = (''1.2.3.4'', ''brormand'', ''2025-01-01T10:01:15Z'', ''Mozilla/5.0'', ?t2)"
    by code_simp+
  show ?thesis
    using heartbeat_sessions_of_each_key [of "(''1.2.3.4'', ''brormand'')"
        fromisoformat_documented "[?l1, ?lx, ?l2]" "[]" ?h1 ?h2 "[]" scenario_C_next_minute
        ?l1 ?l2 offline_world "''1.2.3.4''" "''brormand''" "''Mozilla/5.0''" ?t1
        "''Mozilla/5.0''" ?t2]
      f o p1 p2 hs gap key c
    by simp
qed

text \<open>
  C3 as the claim states it fails: two heartbeats 45 seconds apart at 10:00:05 and 10:00:50
  are two candidates and one confirmed play.
\<close>

theorem two_heartbeats_45_seconds_apart_counterexample:
  "length (np_scan fromisoformat_documented Map.empty (the (NP_LOG_FILE scenario_C))) = 2 \<and>
   map_option r_total_plays (report_of offline_world scenario_C) = Some 1"
  by code_simp

text \<open>
  C4, evaluated where the code departs from it. The address 192.168.1.5 is private. In a
  run whose only identifier it is, no lookup is sent, but the early return of
  \<^verbatim>\<open>lookup_countries\<close> for an empty list of new identifiers also skips the loop that marks
  private identifiers: the play is reported under \<^verbatim>\<open>Ukendt\<close> with an empty code. When a
  public identifier is looked up in the same run, the private one is left out of the
  request and is reported as \<^verbatim>\<open>Lokalt\<close>, \<^verbatim>\<open>LO\<close>.
\<close>

theorem private_address_alone_is_unknown:
  "is_private_ip ''192.168.1.5'' \<and>
   effects (main online_world scenario_E) = [Load_geo_cache, Save_geo_cache, Write_output] \<and>
   map_option (\<lambda>r. (map (\<lambda>p. (p_ip p, p_country p, p_cc p)) (r_recent_plays r), r_per_country r))
     (report_of online_world scenario_E) =
   Some ([(''192.168.1.5'', ''Ukendt'', [])], [(''Ukendt'', 1)]) \<and>
   effects (main online_world scenario_E_mixed) =
     [Load_geo_cache, Geo_request [''8.8.8.8''], Save_geo_cache, Write_output] \<and>
   map_option (\<lambda>r. (map (\<lambda>p. (p_ip p, p_country p, p_cc p)) (r_recent_plays r), r_per_country r))
     (report_of online_world scenario_E_mixed) =
   Some ([(''8.8.8.8'', ''Denmark'', ''DK''), (''192.168.1.5'', ''Lokalt'', ''LO'')],
         [(''Lokalt'', 1), (''Denmark'', 1)])"
  by code_simp

text \<open>
  C5, as the code has it. The list of counted plays holds the plays of the primary log,
  then the plays that the heartbeat pass adds, then those that the track-event pass adds.
  The hour counter is the count of the hours of these plays, taken in the order of the
  list, and each of the buckets 0 to 23 of the report holds the number of plays of its
  hour. When no play has an hour the reported peak hour is 0. Otherwise it is the hour of
  one of the plays, no hour has more plays, and every hour that occurs in the list before
  the first play of the peak hour has strictly fewer plays: among hours tied at the
  maximum the peak is the one whose first play comes first in the list of counted plays,
  which need not be the smallest.
\<close>

theorem peak_hour_is_first_played_maximum:
  assumes "LOG_FILE fs = Some lines" and "output_writable w"
  shows "\<exists>r A B.
     report_of w fs = Some r \<and>
     plays (after_heartbeat w fs lines) =
       plays (primary_pass (get_device_info (HAS_UA w) (parse_ua w)) lines) @ A \<and>
     plays (collect w fs lines) = plays (after_heartbeat w fs lines) @ B \<and>
     hourly_activity (collect w fs lines) = count_hours (played_hours (collect w fs lines)) \<and>
     r_hourly_activity r =
       map (\<lambda>h. (str_hour h, count_list (played_hours (collect w fs lines)) (int h))) [0..<24] \<and>
     (played_hours (collect w fs lines) = [] \<longrightarrow> r_peak_hour r = 0) \<and>
     (played_hours (collect w fs lines) \<noteq> [] \<longrightarrow>
        (\<exists>pre post.
           played_hours (collect w fs lines) = pre @ r_peak_hour r # post \<and>
           r_peak_hour r \<notin> set pre \<and>
           (\<forall>h\<in>set pre. count_list (played_hours (collect w fs lines)) h
                          < count_list (played_hours (collect w fs lines)) (r_peak_hour r)) \<and>
           (\<forall>h. count_list (played_hours (collect w fs lines)) h
                  \<le> count_list (played_hours (collect w fs lines)) (r_peak_hour r))))"
proof -
  let ?st = "collect w fs lines"
  let ?hs = "played_hours ?st"
  let ?r = "build_report (utcnow w)
        (fst (lookup_countries (service w) (geo_ips w ?st) (load_geo_cache fs))) ?st"
  have r: "report_of w fs = Some ?r"
    using assms by (simp add: report_of_def main_def Let_def)
  have hm: "hourly_activity ?st = count_hours ?hs"
    using hours_match_collect [of w fs lines] by (simp add: hours_match_def)
  have p: "r_peak_hour ?r = peak_hour_of (count_hours ?hs)"
    by (simp add: build_report_def Let_def hm)
  have b: "r_hourly_activity ?r = map (\<lambda>h. (str_hour h, count_list ?hs (int h))) [0..<24]"
    by (simp add: build_report_def Let_def hm get_or_count_hours)
  have e: "?hs = [] \<longrightarrow> r_peak_hour ?r = 0"
    unfolding p by (simp add: count_hours_def peak_hour_of_def)
  have n: "?hs \<noteq> [] \<longrightarrow>
      (\<exists>pre post. ?hs = pre @ r_peak_hour ?r # post \<and> r_peak_hour ?r \<notin> set pre \<and>
         (\<forall>h\<in>set pre. count_list ?hs h < count_list ?hs (r_peak_hour ?r)) \<and>
         (\<forall>h. count_list ?hs h \<le> count_list ?hs (r_peak_hour ?r)))"
    unfolding p by (rule impI) (rule peak_of_count_hours)
  from plays_after_heartbeat [of w fs lines] obtain A where
    a: "plays (after_heartbeat w fs lines) =
      plays (primary_pass (get_device_info (HAS_UA w) (parse_ua w)) lines) @ A" ..
  from plays_collect [of w fs lines] obtain B where
    c: "plays ?st = plays (after_heartbeat w fs lines) @ B" ..
  have "report_of w fs = Some ?r \<and>
     plays (after_heartbeat w fs lines) =
       plays (primary_pass (get_device_info (HAS_UA w) (parse_ua w)) lines) @ A \<and>
     plays ?st = plays (after_heartbeat w fs lines) @ B \<and>
     hourly_activity ?st = count_hours ?hs \<and>
     r_hourly_activity ?r = map (\<lambda>h. (str_hour h, count_list ?hs (int h))) [0..<24] \<and>
     (?hs = [] \<longrightarrow> r_peak_hour ?r = 0) \<and>
     (?hs \<noteq> [] \<longrightarrow>
        (\<exists>pre post. ?hs = pre @ r_peak_hour ?r # post \<and> r_peak_hour ?r \<notin> set pre \<and>
           (\<forall>h\<in>set pre. count_list ?hs h < count_list ?hs (r_peak_hour ?r)) \<and>
           (\<forall>h. count_list ?hs h \<le> count_list ?hs (r_peak_hour ?r))))"
    using r a c hm b e n by (intro conjI)
  then show ?thesis by (intro exI)
qed

text \<open>
  At a concrete input: a play of the primary log at hour 15 and a play from the heartbeat
  log at hour 3 of the day before. The hours are tied, the play at hour 15 is first in the
  list of plays, and hour 15 is the peak.
\<close>

theorem peak_hour_is_first_played_maximum_witness:
  "played_hours (collect offline_world scenario_tie_passes (the (LOG_FILE scenario_tie_passes)))
     = [15, 3] \<and>
   (\<exists>r. report_of offline_world scenario_tie_passes = Some r \<and> r_peak_hour r = 15)"
proof -
  let ?ls = "the (LOG_FILE scenario_tie_passes)"
  let ?hs = "played_hours (collect offline_world scenario_tie_passes ?ls)"
  have h1: "LOG_FILE scenario_tie_passes = Some ?ls"
    by (simp add: scenario_tie_passes_def only_logs_def)
  have h2: "output_writable offline_world"
    by (simp add: offline_world_def)
  have h: "?hs = [15, 3]"
    by code_simp
  from peak_hour_is_first_played_maximum [OF h1 h2] obtain r where
    r: "report_of offline_world scenario_tie_passes = Some r"
    and n: "?hs \<noteq> [] \<longrightarrow>
      (\<exists>pre post. ?hs = pre @ r_peak_hour r # post \<and> r_peak_hour r \<notin> set pre \<and>
         (\<forall>h\<in>set pre. count_list ?hs h < count_list ?hs (r_peak_hour r)) \<and>
         (\<forall>h. count_list ?hs h \<le> count_list ?hs (r_peak_hour r)))"
    by (elim exE conjE)
  have ne: "?hs \<noteq> []"
    unfolding h by simp
  from n [THEN mp, OF ne] obtain pre post where
    d0: "?hs = pre @ r_peak_hour r # post"
    and lt0: "\<forall>h\<in>set pre. count_list ?hs h < count_list ?hs (r_peak_hour r)"
    by (elim exE conjE)
  have d: "[15, 3] = pre @ r_peak_hour r # post"
    using d0 unfolding h .
  have lt: "\<forall>h\<in>set pre. count_list [15, 3] h < count_list [15, 3] (r_peak_hour r)"
    using lt0 unfolding h .
  have "r_peak_hour r = 15"
  proof (cases pre)
    case Nil
    then show ?thesis using d by simp
  next
    case (Cons a pre')
    then have "a = 15" and "pre' @ r_peak_hour r # post = [3]" using d by simp_all
    then have "pre' = []" and "r_peak_hour r = 3" by (cases pre'; simp)+
    then show ?thesis using lt Cons \<open>a = 15\<close> by simp
  qed
  then show ?thesis using r h by blast
qed

text \<open>
  C5 as the claim states it fails: with one play at hour 15 followed by one play at hour 3
  both buckets hold the maximum count 1, and the reported peak hour is 15, not 3.
\<close>

theorem peak_hour_smallest_tied_counterexample:
  "map_option (\<lambda>r. (map_of (r_hourly_activity r) ''3'', map_of (r_hourly_activity r) ''15'',
                    list_all (\<lambda>e. snd e \<le> 1) (r_hourly_activity r), r_peak_hour r))
     (report_of offline_world scenario_tie) = Some (Some 1, Some 1, True, 15)"
  by code_simp

text \<open>
  C6, as the code has it. Whatever the library's parser reads, a timestamp written with a
  trailing \<^verbatim>\<open>Z\<close> and the same text written with the offset \<^verbatim>\<open>+00:00\<close> parse to the
  same naive timestamp. For a text without \<^verbatim>\<open>Z\<close> the naive timestamp is the clock
  reading as written: an offset is read and then forgotten, not subtracted.
\<close>

theorem z_suffix_and_zero_offset_agree:
  "log_timestamp fi (s @ ''Z'') = log_timestamp fi (s @ ''+00:00'') \<and>
   (CHR ''Z'' \<notin> set x \<longrightarrow> log_timestamp fi x = map_option fst (fi x))"
  by (simp add: log_timestamp_def replace_char_append replace_char_absent)

text \<open>
  Both parts at concrete texts: the two notations of 10:00:00 UTC agree, and 12:00:00 at
  offset \<^verbatim>\<open>+02:00\<close> stays 12:00:00.
\<close>

theorem z_suffix_and_zero_offset_agree_witness:
  "log_timestamp fromisoformat_documented (''2025-01-01T10:00:00'' @ ''Z'') =
     log_timestamp fromisoformat_documented (''2025-01-01T10:00:00'' @ ''+00:00'') \<and>
   log_timestamp fromisoformat_documented ''2025-01-01T12:00:00+02:00'' =
     Some \<lparr>year = 2025, month = 1, day = 1, hour = 12, minute = 0, second = 0, microsecond = 0\<rparr>"
proof -
  have h: "CHR ''Z'' \<notin> set ''2025-01-01T12:00:00+02:00''"
    by simp
  have f: "map_option fst (fromisoformat_documented ''2025-01-01T12:00:00+02:00'') =
      Some \<lparr>year = 2025, month = 1, day = 1, hour = 12, minute = 0, second = 0, microsecond = 0\<rparr>"
    by code_simp
  show ?thesis
    using z_suffix_and_zero_offset_agree [where fi = fromisoformat_documented
        and s = "''2025-01-01T10:00:00''" and x = "''2025-01-01T12:00:00+02:00''"] h f
    by simp
qed

text \<open>
  C6 as the claim states it fails for an offset other than zero: 12:00:00 at \<^verbatim>\<open>+02:00\<close>
  and 10:00:00 \<^verbatim>\<open>Z\<close> denote the same instant, and the two heartbeat lines get the
  timestamps \<^verbatim>\<open>2025-01-01T12:00:00Z\<close> and \<^verbatim>\<open>2025-01-01T10:00:00Z\<close>.
\<close>

theorem same_instant_other_offset_counterexample:
  "map_option instant (fromisoformat_documented ''2025-01-01T12:00:00+02:00'') =
     map_option instant (fromisoformat_documented ''2025-01-01T10:00:00+00:00'') \<and>
   map (\<lambda>(ip, song, t, ua, ts). t)
     (np_scan fromisoformat_documented Map.empty [''1.2.3.4|2025-01-01T12:00:00+02:00|brormand'']) =
     [''2025-01-01T12:00:00Z''] \<and>
   map (\<lambda>(ip, song, t, ua, ts). t)
     (np_scan fromisoformat_documented Map.empty [''1.2.3.4|2025-01-01T10:00:00Z|brormand'']) =
     [''2025-01-01T10:00:00Z'']"
  by code_simp




text \<open>
  C8. When the primary access log is missing, the run returns at once: it writes no
  report, neither reads nor writes the geolocation cache, sends no lookup and raises
  nothing, whatever the heartbeat and track-event logs hold. All files are as before.
\<close>

theorem missing_primary_log_is_a_noop:
  "LOG_FILE fs = None \<Longrightarrow> main w fs = \<lparr>files_after = fs, effects = [], raised = False\<rparr>"
  by (simp add: main_def)

theorem missing_primary_log_is_a_noop_witness:
  "NP_LOG_FILE scenario_F \<noteq> None \<and> TRACK_LOG_FILE scenario_F \<noteq> None \<and>
   main offline_world scenario_F = \<lparr>files_after = scenario_F, effects = [], raised = False\<rparr>"
proof -
  have h: "LOG_FILE scenario_F = None"
    by (simp add: scenario_F_def only_logs_def)
  show ?thesis
    using missing_primary_log_is_a_noop [OF h, of offline_world]
    by (simp add: scenario_F_def only_logs_def)
qed

text \<open>
  C9. Every report the run writes respects the caps: at most 10 browsers, 10 operating
  systems, 15 countries, 20 top listeners and 200 recent plays.
\<close>

theorem report_respects_caps:
  assumes "LOG_FILE fs = Some lines" and "output_writable w"
  shows "\<exists>r. report_of w fs = Some r \<and>
           length (r_per_browser r) \<le> 10 \<and> length (r_per_os r) \<le> 10 \<and>
           length (r_per_country r) \<le> 15 \<and> length (r_top_ips r) \<le> 20 \<and>
           length (r_recent_plays r) \<le> 200"
  using assms by (simp add: report_of_def main_def build_report_def Let_def)

theorem report_respects_caps_witness:
  "\<exists>r. report_of offline_world scenario_A = Some r \<and>
         length (r_per_browser r) \<le> 10 \<and> length (r_per_os r) \<le> 10 \<and>
         length (r_per_country r) \<le> 15 \<and> length (r_top_ips r) \<le> 20 \<and>
         length (r_recent_plays r) \<le> 200"
proof -
  have h1: "LOG_FILE scenario_A =
      Some [access_line ''1.2.3.4'' ''01/Jan/2025:10:00:05 +0000'' ''/audio/kokosnoed.mp3'' ''200''
              ''Mozilla/5.0'']"
    by (simp add: scenario_A_def only_logs_def)
  have h2: "output_writable offline_world"
    by (simp add: offline_world_def)
  show ?thesis
    by (rule report_respects_caps [OF h1 h2])
qed

text \<open>
  C10, as the code has it. A line of the primary log that matches the grammar, is no bot
  and is a play request, and whose bracketed timestamp \<^verbatim>\<open>strptime\<close> refuses, is still
  counted: the play is stored with the raw bracketed text as its timestamp, and its day
  key is the first 10 characters of that text. Its hour is not always skipped: characters
  11 and 12 of the raw text are given to \<^verbatim>\<open>int\<close>, and when they make a number that bucket
  is counted; the hour is skipped only when they do not. For every parser of the library,
  a heartbeat line whose timestamp that parser refuses is dropped, and so is a \<^verbatim>\<open>play\<close>
  event of the track-event log (the timestamp of other track events is never read).
\<close>

theorem malformed_timestamps:
  "(LOG_PATTERN_match line = Some m \<and> \<not> BOT_PATTERNS_search (m_ua m) \<and> is_play_request m \<and>
    parse_song_name (m_path m) = Some song \<and>
    strptime (takeWhile (\<lambda>c. c \<noteq> CHR '' '') (m_time m)) = None \<longrightarrow>
      plays (process_access_line gdi st line) =
        plays st @ [\<lparr>p_t = m_time m, p_ip = m_ip m, p_s = song, p_ua = take 120 (m_ua m),
                     p_device = device (gdi (m_ua m)), p_browser = browser (gdi (m_ua m)),
                     p_os = os (gdi (m_ua m))\<rparr>] \<and>
      per_day (process_access_line gdi st line) = bump (take 10 (m_time m)) (per_day st) \<and>
      hourly_activity (process_access_line gdi st line) =
        (case py_int (slice 11 13 (m_time m)) of
           None \<Rightarrow> hourly_activity st
         | Some h \<Rightarrow> bump h (hourly_activity st))) \<and>
   (log_timestamp fi (strip (split_on CHR ''|'' (strip hb) ! 1)) = None \<longrightarrow>
      np_scan fi np_sessions (hb # ls) = np_scan fi np_sessions ls) \<and>
   (strip (split_on CHR ''|'' (strip tr) ! 2) = ''play'' \<and>
    log_timestamp fi (strip (split_on CHR ''|'' (strip tr) ! 1)) = None \<longrightarrow>
      process_track_line gdi fi st tr = st)"
  by (auto simp: process_access_line_bad_time count_hour_def np_parse_line_bad_time
      process_track_line_bad_time split: option.splits)

text \<open>
  At concrete lines: a primary-log play with day 32 is kept with the raw text, and its
  hour is skipped, since characters 11 and 12 are \<^verbatim>\<open>:1\<close>; a heartbeat and a track-event
  \<^verbatim>\<open>play\<close> with day 32 are dropped.
\<close>

theorem malformed_timestamps_witness:
  "plays (process_access_line (\<lambda>ua. unknown_device) init_state
      (access_line ''1.2.3.4'' ''32/Jan/2025:10:00:05 +0000'' ''/audio/brormand.mp3'' ''200'' ''Mozilla/5.0'')) =
     [\<lparr>p_t = ''32/Jan/2025:10:00:05 +0000'', p_ip = ''1.2.3.4'', p_s = ''brormand'',
       p_ua = ''Mozilla/5.0'', p_device = ''Ukendt'', p_browser = [], p_os = []\<rparr>] \<and>
   per_day (process_access_line (\<lambda>ua. unknown_device) init_state
      (access_line ''1.2.3.4'' ''32/Jan/2025:10:00:05 +0000'' ''/audio/brormand.mp3'' ''200'' ''Mozilla/5.0'')) =
     [(''32/Jan/202'', 1)] \<and>
   hourly_activity (process_access_line (\<lambda>ua. unknown_device) init_state
      (access_line ''1.2.3.4'' ''32/Jan/2025:10:00:05 +0000'' ''/audio/brormand.mp3'' ''200'' ''Mozilla/5.0'')) = [] \<and>
   np_scan fromisoformat_documented Map.empty [''1.2.3.4|2025-01-32T10:00:05Z|brormand''] = [] \<and>
   process_track_line (\<lambda>ua. unknown_device) fromisoformat_documented init_state
     ''1.2.3.4|2025-01-32T10:00:05Z|play|brormand|0|Mozilla/5.0'' = init_state"
proof -
  let ?line = "access_line ''1.2.3.4'' ''32/Jan/2025:10:00:05 +0000'' ''/audio/brormand.mp3'' ''200''
                 ''Mozilla/5.0''"
  let ?m = "\<lparr>m_ip = ''1.2.3.4'', m_time = ''32/Jan/2025:10:00:05 +0000'', m_method = ''GET'',
             m_path = ''/audio/brormand.mp3'', m_status = ''200'', m_bytes = ''1024'',
             m_referer = ''-'', m_ua = ''Mozilla/5.0''\<rparr>"
  have a: "LOG_PATTERN_match ?line = Some ?m \<and> \<not> BOT_PATTERNS_search (m_ua ?m) \<and>
      is_play_request ?m \<and> parse_song_name (m_path ?m) = Some ''brormand'' \<and>
      strptime (takeWhile (\<lambda>c. c \<noteq> CHR '' '') (m_time ?m)) = None"
    by code_simp
  have b: "py_int (slice 11 13 (m_time ?m)) = None"
    by code_simp
  have c: "log_timestamp fromisoformat_documented (strip (split_on CHR ''|'' (strip ''1.2.3.4|2025-01-32T10:00:05Z|brormand'') ! 1)) = None"
    by code_simp
  have d: "strip (split_on CHR ''|'' (strip ''1.2.3.4|2025-01-32T10:00:05Z|play|brormand|0|Mozilla/5.0'') ! 2) = ''play'' \<and>
      log_timestamp fromisoformat_documented (strip (split_on CHR ''|'' (strip ''1.2.3.4|2025-01-32T10:00:05Z|play|brormand|0|Mozilla/5.0'') ! 1)) = None"
    by code_simp
  show ?thesis
    using malformed_timestamps [where line = ?line and m = ?m and song = "''brormand''"
        and gdi = "\<lambda>ua. unknown_device" and st = init_state
        and fi = fromisoformat_documented
        and hb = "''1.2.3.4|2025-01-32T10:00:05Z|brormand''" and ls = "[]" and np_sessions = Map.empty
        and tr = "''1.2.3.4|2025-01-32T10:00:05Z|play|brormand|0|Mozilla/5.0''"]
      a b c d
    by (simp add: init_state_def unknown_device_def)
qed

text \<open>
  C10 as the claim states it fails on the hour: a bracketed timestamp in ISO form is
  refused by \<^verbatim>\<open>strptime\<close>, the play is kept with the raw text, and its characters 11
  and 12 are \<^verbatim>\<open>10\<close>, so that hour 10 is counted and is the peak hour.
\<close>

theorem unparsed_timestamp_hour_counterexample:
  "strptime (takeWhile (\<lambda>c. c \<noteq> CHR '' '') ''2025-01-01T10:00:05+00:00'') = None \<and>
   map_option (\<lambda>r. (r_total_plays r, map p_t (r_recent_plays r), r_per_day r,
                    map_of (r_hourly_activity r) ''10'', r_peak_hour r))
     (report_of offline_world scenario_iso_time) =
   Some (1, [''2025-01-01T10:00:05+00:00''], [(''2025-01-01'', 1)], Some 1, 10)"
  by code_simp

end
